theory Spec2Isabelle
  imports Main
begin

section \<open>The session manager of lib/CtrlxCore.js\<close>

text \<open>
  The class \<^verbatim>\<open>CtrlxCore\<close> caches a session token for one device and guards the
  data-layer requests with it. Its methods are asynchronous: each returns a promise that
  the callback of an HTTPS request settles later. The embedding is sequential: one call
  chain runs at a time, and a method is a function from the world and the instance to
  the promise's outcome, the world afterwards and the instance afterwards, taken when
  every handler the call has registered (also the \<^verbatim>\<open>.finally\<close> handler) has run.
  A request whose callback never fires leaves the promise pending; the state is then the
  one at the moment the request was sent.
\<close>

subsection \<open>Values and errors\<close>

text \<open>JavaScript values that travel as request payloads and responses.\<close>

datatype jsval =
    JS_undefined
  | JS_null
  | JS_bool bool
  | JS_num int
  | JS_str string
  | JS_obj "(string \<times> jsval) list"

text \<open>
  Error objects. \<^verbatim>\<open>new Error(msg)\<close> and the errors of the runtime carry no
  \<^verbatim>\<open>status\<close>; a \<^verbatim>\<open>CtrlxProblemError\<close> carries the HTTP status of the device's answer.
\<close>

datatype js_error =
    Error string
  | TypeError string
  | SyntaxError string
  | SystemError string
  | CtrlxProblemError int string

fun status :: "js_error \<Rightarrow> int option" where
  "status (CtrlxProblemError s _) = Some s"
| "status _ = None"

text \<open>How a promise ends: resolved, rejected, or never settled.\<close>

datatype 'a outcome = Resolved 'a | Rejected js_error | Pending

subsection \<open>The world outside the class\<close>

text \<open>
  The decoded payload of a token: \<^verbatim>\<open>JSON.parse\<close> yields \<^verbatim>\<open>null\<close> or a value whose
  \<^verbatim>\<open>exp\<close> and \<^verbatim>\<open>iat\<close> properties are numbers (whole seconds) or missing.
\<close>

datatype jwt_payload = JwtNull | JwtClaims (exp: "int option") (iat: "int option")

text \<open>
  The body of an authentication answer with status 201, as \<^verbatim>\<open>JSON.parse\<close> returns it:
  an object whose properties \<^verbatim>\<open>access_token\<close> and \<^verbatim>\<open>token_type\<close> are strings or
  missing, or \<^verbatim>\<open>null\<close>.
\<close>

record auth_data =
  access_token :: "string option"
  token_type :: "string option"

text \<open>
  What \<^verbatim>\<open>_authenticate\<close> hands to its callback: \<^verbatim>\<open>(err)\<close> for a connection error or a
  status other than 201, \<^verbatim>\<open>(null, data)\<close> for status 201, where \<^verbatim>\<open>data\<close> is an object
  or \<^verbatim>\<open>null\<close>. A body that is not JSON makes \<^verbatim>\<open>JSON.parse\<close> throw inside
  \<^verbatim>\<open>_authenticate\<close>, so the callback is not called: that is a request never answered.
\<close>

datatype auth_response = AuthError js_error | AuthData auth_data | AuthNull

text \<open>What a data-layer request hands to its callback: \<^verbatim>\<open>(err, data)\<close>.\<close>

datatype dl_response = DlResponse "js_error option" jsval

text \<open>Every request that leaves the class, with the arguments it was given.\<close>

datatype call =
    Authenticate string string string int
  | DeleteToken string "string option" "string option" int
  | DlRead string "string option" "string option" string jsval string int
  | DlWrite string "string option" "string option" string jsval int
  | DlCreate string "string option" "string option" string jsval int
  | DlDelete string "string option" "string option" string int

text \<open>
  The world: the answers the device will give, in the order the requests arrive (a
  request that finds its list empty is never answered), the readings of
  \<^verbatim>\<open>Date.now()\<close> in milliseconds with the number of readings taken so far, the
  library part of token decoding (\<^verbatim>\<open>atob\<close>, \<^verbatim>\<open>decodeURIComponent\<close>,
  \<^verbatim>\<open>JSON.parse\<close>), and the log of requests sent.
\<close>

record world =
  auth_script :: "auth_response list"
  revoke_script :: "js_error option list"
  dl_script :: "dl_response list"
  clock :: "nat \<Rightarrow> int"
  ticks :: nat
  decode_payload :: "string \<Rightarrow> js_error + jwt_payload"
  trace :: "call list"

definition Date_now :: "world \<Rightarrow> int" where
  "Date_now w = clock w (ticks w)"

definition tick :: "world \<Rightarrow> world" where
  "tick w = w\<lparr>ticks := Suc (ticks w)\<rparr>"

definition send :: "call \<Rightarrow> world \<Rightarrow> world" where
  "send x w = w\<lparr>trace := trace w @ [x]\<rparr>"

subsection \<open>The instance\<close>

datatype session_state = STATE_LOGGED_OUT | STATE_LOGGED_IN | STATE_AUTHENTICATING

text \<open>
  The fields of the class, without their leading underscore. \<^verbatim>\<open>undefined\<close> is
  \<open>None\<close>; the expiry time is a number of milliseconds, \<open>None\<close> when the arithmetic
  on missing claims gave \<^verbatim>\<open>NaN\<close>.
\<close>

record ctrlx =
  hostname :: string
  username :: string
  password :: string
  token :: "string option"
  tokenType :: "string option"
  token_decoded :: "jwt_payload option"
  token_expireTime :: "int option"
  state :: session_state
  timeout :: int
  autoReconnect :: bool

definition constructor :: "world \<Rightarrow> string \<Rightarrow> string \<Rightarrow> string \<Rightarrow> ctrlx \<times> world" where
  "constructor w h u p =
     (\<lparr>hostname = h, username = u, password = p,
       token = None, tokenType = None, token_decoded = None,
       token_expireTime = Some (Date_now w),
       state = STATE_LOGGED_OUT, timeout = - 1, autoReconnect = False\<rparr>,
      tick w)"

subsection \<open>Private methods\<close>

text \<open>\<^verbatim>\<open>String.prototype.split('.')\<close>: the segments between the dots, at least one.\<close>

fun split_dot :: "string \<Rightarrow> string list" where
  "split_dot [] = [[]]"
| "split_dot (ch # s) =
     (if ch = CHR ''.'' then [] # split_dot s
      else (case split_dot s of seg # segs \<Rightarrow> (ch # seg) # segs | [] \<Rightarrow> [[ch]]))"

text \<open>
  \<^verbatim>\<open>_parseJwt\<close>: the second segment of the token, with \<^verbatim>\<open>-\<close> and \<^verbatim>\<open>_\<close> replaced,
  goes to the library decoding \<open>lib\<close>. A token without a dot has no second segment, and
  \<^verbatim>\<open>undefined.replace\<close> throws.
\<close>

definition parseJwt :: "(string \<Rightarrow> js_error + jwt_payload) \<Rightarrow> string \<Rightarrow> js_error + jwt_payload" where
  "parseJwt lib tok =
     (case split_dot tok of
        _ # base64Url # _ \<Rightarrow>
          lib (map (\<lambda>ch. if ch = CHR ''_'' then CHR ''/'' else ch)
                 (map (\<lambda>ch. if ch = CHR ''-'' then CHR ''+'' else ch) base64Url))
      | _ \<Rightarrow> Inl (TypeError ''Cannot read properties of undefined (reading 'replace')''))"

text \<open>
  \<^verbatim>\<open>_authenticate\<close> and \<^verbatim>\<open>_deleteToken\<close> send one request each; the answer, when
  there is one, is the next of the world's list.
\<close>

definition authenticate :: "world \<Rightarrow> string \<Rightarrow> string \<Rightarrow> string \<Rightarrow> int \<Rightarrow> auth_response option \<times> world" where
  "authenticate w h u p t =
     (let w1 = send (Authenticate h u p t) w in
      case auth_script w1 of
        [] \<Rightarrow> (None, w1)
      | r # rest \<Rightarrow> (Some r, w1\<lparr>auth_script := rest\<rparr>))"

definition deleteToken :: "world \<Rightarrow> string \<Rightarrow> string option \<Rightarrow> string option \<Rightarrow> int \<Rightarrow> js_error option option \<times> world" where
  "deleteToken w h tt tok t =
     (let w1 = send (DeleteToken h tt tok t) w in
      case revoke_script w1 of
        [] \<Rightarrow> (None, w1)
      | r # rest \<Rightarrow> (Some r, w1\<lparr>revoke_script := rest\<rparr>))"

subsection \<open>The transport of lib/CtrlxDatalayer.js\<close>

text \<open>
  Modelled from the spec: the module \<^verbatim>\<open>CtrlxDatalayer\<close> (its functions \<^verbatim>\<open>read\<close>,
  \<^verbatim>\<open>write\<close>, \<^verbatim>\<open>create\<close> and \<^verbatim>\<open>delete\<close>) is not among the sources. Each function
  sends one request with the credential, the path, the payload and the timeout it is
  given, and calls back once with an error or a result.
\<close>

definition transport :: "call \<Rightarrow> world \<Rightarrow> dl_response option \<times> world" where
  "transport x w =
     (let w1 = send x w in
      case dl_script w1 of
        [] \<Rightarrow> (None, w1)
      | r # rest \<Rightarrow> (Some r, w1\<lparr>dl_script := rest\<rparr>))"

definition CtrlxDatalayer_read ::
  "world \<Rightarrow> string \<Rightarrow> string option \<Rightarrow> string option \<Rightarrow> string \<Rightarrow> jsval \<Rightarrow> string \<Rightarrow> int
     \<Rightarrow> dl_response option \<times> world" where
  "CtrlxDatalayer_read w h tt tok path data type t = transport (DlRead h tt tok path data type t) w"

definition CtrlxDatalayer_write ::
  "world \<Rightarrow> string \<Rightarrow> string option \<Rightarrow> string option \<Rightarrow> string \<Rightarrow> jsval \<Rightarrow> int
     \<Rightarrow> dl_response option \<times> world" where
  "CtrlxDatalayer_write w h tt tok path data t = transport (DlWrite h tt tok path data t) w"

definition CtrlxDatalayer_create ::
  "world \<Rightarrow> string \<Rightarrow> string option \<Rightarrow> string option \<Rightarrow> string \<Rightarrow> jsval \<Rightarrow> int
     \<Rightarrow> dl_response option \<times> world" where
  "CtrlxDatalayer_create w h tt tok path data t = transport (DlCreate h tt tok path data t) w"

definition CtrlxDatalayer_delete ::
  "world \<Rightarrow> string \<Rightarrow> string option \<Rightarrow> string option \<Rightarrow> string \<Rightarrow> int
     \<Rightarrow> dl_response option \<times> world" where
  "CtrlxDatalayer_delete w h tt tok path t = transport (DlDelete h tt tok path t) w"

subsection \<open>Public methods: configuration\<close>

definition get_timeout :: "ctrlx \<Rightarrow> int" where
  "get_timeout c = timeout c"

definition set_timeout :: "ctrlx \<Rightarrow> int \<Rightarrow> ctrlx" where
  "set_timeout c newTimeout = c\<lparr>timeout := newTimeout\<rparr>"

definition get_autoReconnect :: "ctrlx \<Rightarrow> bool" where
  "get_autoReconnect c = autoReconnect c"

definition set_autoReconnect :: "ctrlx \<Rightarrow> bool \<Rightarrow> ctrlx" where
  "set_autoReconnect c newAutoReconnect = c\<lparr>autoReconnect := newAutoReconnect\<rparr>"

subsection \<open>Public methods: logOut and logIn\<close>

text \<open>The four assignments that invalidate the session.\<close>

definition invalidate :: "ctrlx \<Rightarrow> ctrlx" where
  "invalidate c =
     c\<lparr>token := None, tokenType := None, token_decoded := None, state := STATE_LOGGED_OUT\<rparr>"

text \<open>
  \<^verbatim>\<open>logOut\<close>: the request carries the cached credential; its callback invalidates the
  members whether the device reported an error or not.
\<close>

definition logOut :: "world \<Rightarrow> ctrlx \<Rightarrow> unit outcome \<times> world \<times> ctrlx" where
  "logOut w c =
     (case deleteToken w (hostname c) (tokenType c) (token c) (timeout c) of
        (None, w1) \<Rightarrow> (Pending, w1, c)
      | (Some err, w1) \<Rightarrow>
          (case err of
             Some e \<Rightarrow> (Rejected e, w1, invalidate c)
           | None \<Rightarrow> (Resolved (), w1, invalidate c)))"

text \<open>A property that is missing or the empty string is falsy.\<close>

definition falsy :: "string option \<Rightarrow> bool" where
  "falsy s = (s = None \<or> s = Some [])"

text \<open>What \<^verbatim>\<open>logIn\<close> resolves with: the answer, with the two members it adds.\<close>

record login_data = auth_data +
  data_token_decoded :: jwt_payload
  data_token_expireTime :: "int option"

text \<open>
  \<^verbatim>\<open>exp - iat - 30\<close>, then \<^verbatim>\<open>Date.now() + seconds * 1000\<close>; a missing claim makes the
  result \<^verbatim>\<open>NaN\<close>.
\<close>

definition tokenExpiresInSeconds :: "jwt_payload \<Rightarrow> int option" where
  "tokenExpiresInSeconds p =
     (case (exp p, iat p) of
        (Some e, Some i) \<Rightarrow> Some (e - i - 30)
      | _ \<Rightarrow> None)"

definition expireTime :: "int \<Rightarrow> int option \<Rightarrow> int option" where
  "expireTime now secs = (case secs of Some s \<Rightarrow> Some (now + s * 1000) | None \<Rightarrow> None)"

text \<open>
  The callback of \<^verbatim>\<open>_authenticate\<close> inside \<^verbatim>\<open>logIn\<close>, for an answer that arrived.
  Reading \<^verbatim>\<open>exp\<close> of \<^verbatim>\<open>null\<close> throws inside the \<^verbatim>\<open>try\<close> block, before the clock is
  read. Reading \<^verbatim>\<open>access_token\<close> of a \<^verbatim>\<open>null\<close> body throws before the \<^verbatim>\<open>try\<close> block:
  the exception leaves the callback, nothing is assigned and the promise is never settled.
\<close>

definition logIn_callback :: "world \<Rightarrow> ctrlx \<Rightarrow> auth_response \<Rightarrow> login_data outcome \<times> world \<times> ctrlx" where
  "logIn_callback w c r =
     (case r of
        AuthError err \<Rightarrow> (Rejected err, w, invalidate c)
      | AuthNull \<Rightarrow> (Pending, w, c)
      | AuthData d \<Rightarrow>
          if falsy (access_token d) \<or> falsy (token_type d) then
            (Rejected (Error ''Did not receive expected data as authentication response''),
             w, invalidate c)
          else
            (case parseJwt (decode_payload w) (the (access_token d)) of
               Inl error \<Rightarrow> (Rejected error, w, invalidate c)
             | Inr JwtNull \<Rightarrow>
                 (Rejected (TypeError ''Cannot read properties of null (reading 'exp')''),
                  w, invalidate c)
             | Inr (JwtClaims e i) \<Rightarrow>
                 (let t = expireTime (Date_now w) (tokenExpiresInSeconds (JwtClaims e i)) in
                  (Resolved (auth_data.extend d
                     \<lparr>data_token_decoded = JwtClaims e i, data_token_expireTime = t\<rparr>),
                   tick w,
                   c\<lparr>token := access_token d, tokenType := token_type d,
                     state := STATE_LOGGED_IN, token_decoded := Some (JwtClaims e i),
                     token_expireTime := t\<rparr>))))"

text \<open>
  \<^verbatim>\<open>logIn\<close>: a session that is logged in or authenticating is logged out first, and
  the login starts again whatever the logout gave.
\<close>

function logIn :: "world \<Rightarrow> ctrlx \<Rightarrow> login_data outcome \<times> world \<times> ctrlx" where
  "logIn w c =
     (if state c = STATE_LOGGED_IN \<or> state c = STATE_AUTHENTICATING then
        (case logOut w c of
           (Pending, w1, c1) \<Rightarrow> (Pending, w1, c1)
         | (_, w1, c1) \<Rightarrow> logIn w1 c1)
      else
        (let c1 = c\<lparr>state := STATE_AUTHENTICATING\<rparr> in
         case authenticate w (hostname c1) (username c1) (password c1) (timeout c1) of
           (None, w1) \<Rightarrow> (Pending, w1, c1)
         | (Some r, w1) \<Rightarrow> logIn_callback w1 c1 r))"
  by pat_completeness auto

text \<open>The login starts again at most once: a logout that called back leaves the state logged out.\<close>

lemma logOut_state:
  "logOut w c = (out, w1, c1) \<Longrightarrow> out \<noteq> Pending \<Longrightarrow> state c1 = STATE_LOGGED_OUT"
  by (auto simp: logOut_def invalidate_def split: prod.splits option.splits)

termination logIn
proof (relation "measure (\<lambda>(w, c). if state c = STATE_LOGGED_OUT then 0 else 1)", goal_cases)
  case 1
  show ?case by simp
next
  case (2 w c x y x1 xa ya)
  then have "logOut w c = (Resolved x1, xa, ya)" by simp
  from logOut_state[OF this] 2(1) show ?case by auto
next
  case (3 w c x y x2 xa ya)
  then have "logOut w c = (Rejected x2, xa, ya)" by simp
  from logOut_state[OF this] 3(1) show ?case by auto
qed

declare logIn.simps [simp del]

text \<open>A login that resolves has used up one answer of the authentication endpoint.\<close>

lemma logOut_auth_script: "logOut w c = (out, w1, c1) \<Longrightarrow> auth_script w1 = auth_script w"
  by (auto simp: logOut_def deleteToken_def send_def Let_def
      split: prod.splits option.splits list.splits)

lemma logIn_callback_auth_script:
  "logIn_callback w c r = (out, w1, c1) \<Longrightarrow> auth_script w1 = auth_script w"
  by (auto simp: logIn_callback_def tick_def Let_def
      split: auth_response.splits if_splits sum.splits jwt_payload.splits)

lemma logIn_consumes:
  "logIn w c = (Resolved d, w1, c1) \<Longrightarrow> length (auth_script w1) < length (auth_script w)"
proof (induction w c rule: logIn.induct)
  case (1 w c)
  show ?case
  proof (cases "state c = STATE_LOGGED_IN \<or> state c = STATE_AUTHENTICATING")
    case True
    obtain out w' c' where lo: "logOut w c = (out, w', c')"
      by (cases "logOut w c") auto
    with True "1.prems" have np: "out \<noteq> Pending" and li: "logIn w' c' = (Resolved d, w1, c1)"
      by (auto simp: logIn.simps[of w c] split: outcome.splits)
    from np "1.IH"[OF True lo[symmetric]] li
    have "length (auth_script w1) < length (auth_script w')"
      by (cases out) auto
    with logOut_auth_script[OF lo] show ?thesis by simp
  next
    case False
    with "1.prems" show ?thesis
      by (auto simp: logIn.simps[of w c] authenticate_def send_def Let_def
          split: prod.splits option.splits list.splits dest!: logIn_callback_auth_script)
  qed
qed

lemma transport_auth_script: "transport x w = (r, w1) \<Longrightarrow> auth_script w1 = auth_script w"
  by (auto simp: transport_def send_def Let_def split: list.splits)


subsection \<open>Public methods: the data-layer requests\<close>

text \<open>\<^verbatim>\<open>Date.now() > this._token_expireTime\<close>; a comparison with \<^verbatim>\<open>NaN\<close> is false.\<close>

definition past :: "int \<Rightarrow> int option \<Rightarrow> bool" where
  "past now t = (case t of Some t' \<Rightarrow> now > t' | None \<Rightarrow> False)"

text \<open>
  \<^verbatim>\<open>datalayerRead\<close>. The callback's second parameter is named \<^verbatim>\<open>data\<close> as the
  method's own, so the call after a reconnect passes what the callback received.
\<close>

function datalayerRead ::
  "world \<Rightarrow> ctrlx \<Rightarrow> string \<Rightarrow> jsval \<Rightarrow> string \<Rightarrow> jsval outcome \<times> world \<times> ctrlx" where
  "datalayerRead w c path data type =
     (if state c \<noteq> STATE_LOGGED_IN then
        (Rejected (Error ''Failed to read from Data Layer. Not authenticated. Please login first.''), w, c)
      else if past (Date_now w) (token_expireTime c) then
        (case logIn (tick w) c of
           (Resolved _, w1, c1) \<Rightarrow> datalayerRead w1 c1 path data type
         | (Rejected err, w1, c1) \<Rightarrow> (Rejected err, w1, c1)
         | (Pending, w1, c1) \<Rightarrow> (Pending, w1, c1))
      else
        (case CtrlxDatalayer_read (tick w) (hostname c) (tokenType c) (token c) path data type (timeout c) of
           (None, w1) \<Rightarrow> (Pending, w1, c)
         | (Some (DlResponse err data2), w1) \<Rightarrow>
             (case err of
                Some e \<Rightarrow>
                  if status e = Some 401 \<and> autoReconnect c then
                    (case logIn w1 c of
                       (Resolved _, w2, c2) \<Rightarrow>
                         (case datalayerRead w2 c2 path data2 type of
                            (Pending, w3, c3) \<Rightarrow> (Pending, w3, c3)
                          | (result, w3, c3) \<Rightarrow> (result, w3, c3\<lparr>state := STATE_LOGGED_IN\<rparr>))
                     | (Rejected err', w2, c2) \<Rightarrow>
                         (Rejected err', w2, c2\<lparr>state := STATE_LOGGED_IN\<rparr>)
                     | (Pending, w2, c2) \<Rightarrow> (Pending, w2, c2))
                  else (Rejected e, w1, c)
              | None \<Rightarrow> (Resolved data2, w1, c))))"
  by pat_completeness auto

termination datalayerRead
proof (relation "measure (\<lambda>(w, c, rest). length (auth_script w))", goal_cases)
  case 1
  show ?case by simp
next
  case (2 w c path data type x y x1 xa ya)
  then have "logIn (tick w) c = (Resolved x1, xa, ya)" by simp
  from logIn_consumes[OF this] show ?case by (simp add: tick_def)
next
  case (3 w c path data type x y x2 x1 x2a x2b xa ya x1a xb yb)
  then have t: "transport (DlRead (hostname c) (tokenType c) (token c) path data type (timeout c)) (tick w) = (x, y)"
    and l: "logIn y c = (Resolved x1a, xb, yb)"
    by (simp_all add: CtrlxDatalayer_read_def)
  from logIn_consumes[OF l] transport_auth_script[OF t] show ?case by (simp add: tick_def)
qed

declare datalayerRead.simps [simp del]

text \<open>\<^verbatim>\<open>datalayerWrite\<close>; its callback names the result \<^verbatim>\<open>dataReturned\<close>.\<close>

function datalayerWrite ::
  "world \<Rightarrow> ctrlx \<Rightarrow> string \<Rightarrow> jsval \<Rightarrow> jsval outcome \<times> world \<times> ctrlx" where
  "datalayerWrite w c path data =
     (if state c \<noteq> STATE_LOGGED_IN then
        (Rejected (Error ''Failed to read from Data Layer. Not authenticated. Please login first.''), w, c)
      else if past (Date_now w) (token_expireTime c) then
        (case logIn (tick w) c of
           (Resolved _, w1, c1) \<Rightarrow> datalayerWrite w1 c1 path data
         | (Rejected err, w1, c1) \<Rightarrow> (Rejected err, w1, c1)
         | (Pending, w1, c1) \<Rightarrow> (Pending, w1, c1))
      else
        (case CtrlxDatalayer_write (tick w) (hostname c) (tokenType c) (token c) path data (timeout c) of
           (None, w1) \<Rightarrow> (Pending, w1, c)
         | (Some (DlResponse err dataReturned), w1) \<Rightarrow>
             (case err of
                Some e \<Rightarrow>
                  if status e = Some 401 \<and> autoReconnect c then
                    (case logIn w1 c of
                       (Resolved _, w2, c2) \<Rightarrow>
                         (case datalayerWrite w2 c2 path data of
                            (Pending, w3, c3) \<Rightarrow> (Pending, w3, c3)
                          | (result, w3, c3) \<Rightarrow> (result, w3, c3\<lparr>state := STATE_LOGGED_IN\<rparr>))
                     | (Rejected err', w2, c2) \<Rightarrow>
                         (Rejected err', w2, c2\<lparr>state := STATE_LOGGED_IN\<rparr>)
                     | (Pending, w2, c2) \<Rightarrow> (Pending, w2, c2))
                  else (Rejected e, w1, c)
              | None \<Rightarrow> (Resolved dataReturned, w1, c))))"
  by pat_completeness auto

termination datalayerWrite
proof (relation "measure (\<lambda>(w, c, rest). length (auth_script w))", goal_cases)
  case 1
  show ?case by simp
next
  case (2 w c path data x y x1 xa ya)
  then have "logIn (tick w) c = (Resolved x1, xa, ya)" by simp
  from logIn_consumes[OF this] show ?case by (simp add: tick_def)
next
  case (3 w c path data x y x2 x1 x2a x2b xa ya x1a xb yb)
  then have t: "transport (DlWrite (hostname c) (tokenType c) (token c) path data (timeout c)) (tick w) = (x, y)"
    and l: "logIn y c = (Resolved x1a, xb, yb)"
    by (simp_all add: CtrlxDatalayer_write_def)
  from logIn_consumes[OF l] transport_auth_script[OF t] show ?case by (simp add: tick_def)
qed

declare datalayerWrite.simps [simp del]

text \<open>\<^verbatim>\<open>datalayerCreate\<close>.\<close>

function datalayerCreate ::
  "world \<Rightarrow> ctrlx \<Rightarrow> string \<Rightarrow> jsval \<Rightarrow> jsval outcome \<times> world \<times> ctrlx" where
  "datalayerCreate w c path data =
     (if state c \<noteq> STATE_LOGGED_IN then
        (Rejected (Error ''Failed to create node on Data Layer. Not authenticated. Please login first.''), w, c)
      else if past (Date_now w) (token_expireTime c) then
        (case logIn (tick w) c of
           (Resolved _, w1, c1) \<Rightarrow> datalayerCreate w1 c1 path data
         | (Rejected err, w1, c1) \<Rightarrow> (Rejected err, w1, c1)
         | (Pending, w1, c1) \<Rightarrow> (Pending, w1, c1))
      else
        (case CtrlxDatalayer_create (tick w) (hostname c) (tokenType c) (token c) path data (timeout c) of
           (None, w1) \<Rightarrow> (Pending, w1, c)
         | (Some (DlResponse err dataReturned), w1) \<Rightarrow>
             (case err of
                Some e \<Rightarrow>
                  if status e = Some 401 \<and> autoReconnect c then
                    (case logIn w1 c of
                       (Resolved _, w2, c2) \<Rightarrow>
                         (case datalayerCreate w2 c2 path data of
                            (Pending, w3, c3) \<Rightarrow> (Pending, w3, c3)
                          | (result, w3, c3) \<Rightarrow> (result, w3, c3\<lparr>state := STATE_LOGGED_IN\<rparr>))
                     | (Rejected err', w2, c2) \<Rightarrow>
                         (Rejected err', w2, c2\<lparr>state := STATE_LOGGED_IN\<rparr>)
                     | (Pending, w2, c2) \<Rightarrow> (Pending, w2, c2))
                  else (Rejected e, w1, c)
              | None \<Rightarrow> (Resolved dataReturned, w1, c))))"
  by pat_completeness auto

termination datalayerCreate
proof (relation "measure (\<lambda>(w, c, rest). length (auth_script w))", goal_cases)
  case 1
  show ?case by simp
next
  case (2 w c path data x y x1 xa ya)
  then have "logIn (tick w) c = (Resolved x1, xa, ya)" by simp
  from logIn_consumes[OF this] show ?case by (simp add: tick_def)
next
  case (3 w c path data x y x2 x1 x2a x2b xa ya x1a xb yb)
  then have t: "transport (DlCreate (hostname c) (tokenType c) (token c) path data (timeout c)) (tick w) = (x, y)"
    and l: "logIn y c = (Resolved x1a, xb, yb)"
    by (simp_all add: CtrlxDatalayer_create_def)
  from logIn_consumes[OF l] transport_auth_script[OF t] show ?case by (simp add: tick_def)
qed

declare datalayerCreate.simps [simp del]

text \<open>
  \<^verbatim>\<open>datalayerDelete\<close>; its callback takes the error only, and the promise resolves
  with nothing.
\<close>

function datalayerDelete ::
  "world \<Rightarrow> ctrlx \<Rightarrow> string \<Rightarrow> jsval outcome \<times> world \<times> ctrlx" where
  "datalayerDelete w c path =
     (if state c \<noteq> STATE_LOGGED_IN then
        (Rejected (Error ''Failed to delete node on Data Layer. Not authenticated. Please login first.''), w, c)
      else if past (Date_now w) (token_expireTime c) then
        (case logIn (tick w) c of
           (Resolved _, w1, c1) \<Rightarrow> datalayerDelete w1 c1 path
         | (Rejected err, w1, c1) \<Rightarrow> (Rejected err, w1, c1)
         | (Pending, w1, c1) \<Rightarrow> (Pending, w1, c1))
      else
        (case CtrlxDatalayer_delete (tick w) (hostname c) (tokenType c) (token c) path (timeout c) of
           (None, w1) \<Rightarrow> (Pending, w1, c)
         | (Some (DlResponse err _), w1) \<Rightarrow>
             (case err of
                Some e \<Rightarrow>
                  if status e = Some 401 \<and> autoReconnect c then
                    (case logIn w1 c of
                       (Resolved _, w2, c2) \<Rightarrow>
                         (case datalayerDelete w2 c2 path of
                            (Pending, w3, c3) \<Rightarrow> (Pending, w3, c3)
                          | (result, w3, c3) \<Rightarrow> (result, w3, c3\<lparr>state := STATE_LOGGED_IN\<rparr>))
                     | (Rejected err', w2, c2) \<Rightarrow>
                         (Rejected err', w2, c2\<lparr>state := STATE_LOGGED_IN\<rparr>)
                     | (Pending, w2, c2) \<Rightarrow> (Pending, w2, c2))
                  else (Rejected e, w1, c)
              | None \<Rightarrow> (Resolved JS_undefined, w1, c))))"
  by pat_completeness auto

termination datalayerDelete
proof (relation "measure (\<lambda>(w, c, rest). length (auth_script w))", goal_cases)
  case 1
  show ?case by simp
next
  case (2 w c path x y x1 xa ya)
  then have "logIn (tick w) c = (Resolved x1, xa, ya)" by simp
  from logIn_consumes[OF this] show ?case by (simp add: tick_def)
next
  case (3 w c path x y x2 x1 x2a x2b xa ya x1a xb yb)
  then have t: "transport (DlDelete (hostname c) (tokenType c) (token c) path (timeout c)) (tick w) = (x, y)"
    and l: "logIn y c = (Resolved x1a, xb, yb)"
    by (simp_all add: CtrlxDatalayer_delete_def)
  from logIn_consumes[OF l] transport_auth_script[OF t] show ?case by (simp add: tick_def)
qed

declare datalayerDelete.simps [simp del]


text \<open>\<^verbatim>\<open>datalayerReadMetadata\<close> and \<^verbatim>\<open>datalayerBrowse\<close>.\<close>

definition datalayerReadMetadata :: "world \<Rightarrow> ctrlx \<Rightarrow> string \<Rightarrow> jsval outcome \<times> world \<times> ctrlx" where
  "datalayerReadMetadata w c path = datalayerRead w c path JS_undefined ''metadata''"

definition datalayerBrowse :: "world \<Rightarrow> ctrlx \<Rightarrow> string \<Rightarrow> jsval outcome \<times> world \<times> ctrlx" where
  "datalayerBrowse w c path = datalayerRead w c path JS_undefined ''browse''"

subsection \<open>The invariant of the token fields\<close>


definition absent_not_logged_in :: "ctrlx \<Rightarrow> bool" where
  "absent_not_logged_in c = (token c = None \<longrightarrow> state c \<noteq> STATE_LOGGED_IN)"







subsection \<open>A device and two sessions to run the methods on\<close>

text \<open>
  A device whose tokens carry the claims \<open>iat = 1000\<close> and \<open>exp = 4600\<close>, a local clock
  that starts at 5000000 ms, a session just constructed and a session that is logged in.
\<close>

definition example_decode :: "string \<Rightarrow> js_error + jwt_payload" where
  "example_decode s =
     (if s = ''e30+'' then Inr (JwtClaims (Some 4600) (Some 1000))
      else if s = ''bnVsbA'' then Inr JwtNull
      else Inl (SyntaxError ''Unexpected end of JSON input''))"

definition example_world :: "auth_response list \<Rightarrow> js_error option list \<Rightarrow> dl_response list \<Rightarrow> world" where
  "example_world as rs ds =
     \<lparr>auth_script = as, revoke_script = rs, dl_script = ds,
      clock = (\<lambda>n. 5000000 + int n), ticks = 0,
      decode_payload = example_decode, trace = []\<rparr>"

definition example_grant :: auth_response where
  "example_grant = AuthData \<lparr>access_token = Some ''h.e30-.s'', token_type = Some ''Bearer''\<rparr>"

definition example_new :: ctrlx where
  "example_new = fst (constructor (example_world [] [] []) ''192.168.1.1'' ''boschrexroth'' ''secret'')"

definition example_session :: ctrlx where
  "example_session =
     \<lparr>hostname = ''192.168.1.1'', username = ''boschrexroth'', password = ''secret'',
      token = Some ''h.e30-.s'', tokenType = Some ''Bearer'',
      token_decoded = Some (JwtClaims (Some 4600) (Some 1000)),
      token_expireTime = Some 8570001, state = STATE_LOGGED_IN,
      timeout = - 1, autoReconnect = False\<rparr>"

text \<open>
  A device that grants one login, answers the next request with status 401 and then
  refuses the connection; and the session that has logged in to it with
  \<^verbatim>\<open>autoReconnect\<close> set.
\<close>

definition example_device :: world where
  "example_device =
     example_world [example_grant, AuthError (SystemError ''ECONNREFUSED'')] [None]
       [DlResponse (Some (CtrlxProblemError 401 ''Unauthorized'')) JS_null]"

definition example_reconnecting :: "world \<times> ctrlx" where
  "example_reconnecting =
     snd (logIn (snd (constructor example_device ''192.168.1.1'' ''boschrexroth'' ''secret''))
            (set_autoReconnect
               (fst (constructor example_device ''192.168.1.1'' ''boschrexroth'' ''secret'')) True))"

text \<open>
  The answer with status 401; the logged-in session with \<^verbatim>\<open>autoReconnect\<close> set; the
  logged-in session with a token past its expiry time; and a grant of another token.
\<close>

definition example_unauthorized :: dl_response where
  "example_unauthorized = DlResponse (Some (CtrlxProblemError 401 ''Unauthorized'')) JS_null"

definition example_auto :: ctrlx where
  "example_auto = set_autoReconnect example_session True"

definition example_stale :: ctrlx where
  "example_stale = example_session\<lparr>token_expireTime := Some 4999999\<rparr>"

definition example_grant2 :: auth_response where
  "example_grant2 = AuthData \<lparr>access_token = Some ''n.e30-.t'', token_type = Some ''Bearer''\<rparr>"


section \<open>Properties\<close>

subsection \<open>logIn without its recursion\<close>

text \<open>
  From a logged-out state the login is one authentication request; from the other two
  states it is the logout, then that request on the invalidated instance.
\<close>

lemma logIn_fresh:
  "state c \<noteq> STATE_LOGGED_IN \<Longrightarrow> state c \<noteq> STATE_AUTHENTICATING \<Longrightarrow>
   logIn w c =
     (case authenticate w (hostname c) (username c) (password c) (timeout c) of
        (None, w1) \<Rightarrow> (Pending, w1, c\<lparr>state := STATE_AUTHENTICATING\<rparr>)
      | (Some r, w1) \<Rightarrow> logIn_callback w1 (c\<lparr>state := STATE_AUTHENTICATING\<rparr>) r)"
  by (simp add: logIn.simps[of w c] Let_def)

lemma logOut_post:
  "logOut w c = (out, w1, c1) \<Longrightarrow>
     (out = Pending \<and> c1 = c) \<or> (out \<noteq> Pending \<and> c1 = invalidate c)"
  by (auto simp: logOut_def split: prod.splits option.splits)

lemma logIn_again:
  assumes a: "state c = STATE_LOGGED_IN \<or> state c = STATE_AUTHENTICATING"
  shows "logIn w c =
     (case logOut w c of
        (Pending, w1, c1) \<Rightarrow> (Pending, w1, c1)
      | (_, w1, c1) \<Rightarrow>
         (case authenticate w1 (hostname c) (username c) (password c) (timeout c) of
            (None, w2) \<Rightarrow> (Pending, w2, (invalidate c)\<lparr>state := STATE_AUTHENTICATING\<rparr>)
          | (Some r, w2) \<Rightarrow>
              logIn_callback w2 ((invalidate c)\<lparr>state := STATE_AUTHENTICATING\<rparr>) r))"
proof -
  obtain out w1 c1 where lo: "logOut w c = (out, w1, c1)"
    by (cases "logOut w c") auto
  have fresh: "logIn w1 (invalidate c) =
     (case authenticate w1 (hostname c) (username c) (password c) (timeout c) of
        (None, w2) \<Rightarrow> (Pending, w2, (invalidate c)\<lparr>state := STATE_AUTHENTICATING\<rparr>)
      | (Some r, w2) \<Rightarrow> logIn_callback w2 ((invalidate c)\<lparr>state := STATE_AUTHENTICATING\<rparr>) r)"
    using logIn_fresh[of "invalidate c" w1] by (simp add: invalidate_def)
  show ?thesis
  proof (cases out)
    case Pending
    with a lo show ?thesis by (simp add: logIn.simps[of w c])
  next
    case (Resolved u)
    with logOut_post[OF lo] have "c1 = invalidate c" by simp
    with a lo Resolved fresh show ?thesis by (simp add: logIn.simps[of w c])
  next
    case (Rejected e)
    with logOut_post[OF lo] have "c1 = invalidate c" by simp
    with a lo Rejected fresh show ?thesis by (simp add: logIn.simps[of w c])
  qed
qed

text \<open>What the callback of the authentication request leaves behind.\<close>

lemma logIn_callback_post:
  "logIn_callback w c r = (out, w1, c1) \<Longrightarrow>
     autoReconnect c1 = autoReconnect c \<and>
     ((c1 = invalidate c \<and> (\<exists>e. out = Rejected e)) \<or>
      (c1 = c \<and> out = Pending) \<or>
      (token c1 \<noteq> None \<and> tokenType c1 \<noteq> None \<and> token_decoded c1 \<noteq> None \<and>
       state c1 = STATE_LOGGED_IN \<and> (\<exists>d. out = Resolved d)))"
  by (auto simp: logIn_callback_def Let_def invalidate_def falsy_def
      split: auth_response.splits if_splits sum.splits jwt_payload.splits)

lemma logIn_post:
  assumes "logIn w c = (out, w1, c1)"
  shows "autoReconnect c1 = autoReconnect c \<and>
     (case out of
        Resolved d \<Rightarrow>
          token c1 \<noteq> None \<and> tokenType c1 \<noteq> None \<and> token_decoded c1 \<noteq> None \<and>
          state c1 = STATE_LOGGED_IN
      | Rejected e \<Rightarrow>
          token c1 = None \<and> tokenType c1 = None \<and> token_decoded c1 = None \<and>
          state c1 = STATE_LOGGED_OUT
      | Pending \<Rightarrow>
          c1 = c \<or>
          (token c1 = token c \<and> tokenType c1 = tokenType c \<and>
           token_decoded c1 = token_decoded c \<and> state c1 = STATE_AUTHENTICATING) \<or>
          (token c1 = None \<and> tokenType c1 = None \<and> token_decoded c1 = None \<and>
           state c1 = STATE_AUTHENTICATING))"
proof (cases "state c = STATE_LOGGED_IN \<or> state c = STATE_AUTHENTICATING")
  case True
  from assms show ?thesis unfolding logIn_again[OF True]
    by (auto simp: authenticate_def Let_def invalidate_def
        split: prod.splits outcome.splits option.splits list.splits
        dest!: logOut_post logIn_callback_post)
next
  case False
  then have f: "state c \<noteq> STATE_LOGGED_IN" "state c \<noteq> STATE_AUTHENTICATING"
    by simp_all
  from assms show ?thesis unfolding logIn_fresh[OF f]
    by (auto simp: authenticate_def Let_def invalidate_def
        split: prod.splits outcome.splits option.splits list.splits
        dest!: logIn_callback_post)
qed

subsection \<open>Evaluating the methods on a given world\<close>

lemmas run_defs =
  constructor_def set_autoReconnect_def set_timeout_def Date_now_def tick_def send_def
  authenticate_def deleteToken_def transport_def
  CtrlxDatalayer_read_def CtrlxDatalayer_write_def CtrlxDatalayer_create_def
  CtrlxDatalayer_delete_def
  logOut_def invalidate_def falsy_def logIn_callback_def parseJwt_def
  tokenExpiresInSeconds_def expireTime_def past_def Let_def
  example_world_def example_decode_def example_grant_def

lemma example_reconnecting_eq:
  "example_reconnecting =
     (\<lparr>auth_script = [AuthError (SystemError ''ECONNREFUSED'')],
       revoke_script = [None],
       dl_script = [DlResponse (Some (CtrlxProblemError 401 ''Unauthorized'')) JS_null],
       clock = (\<lambda>n. 5000000 + int n), ticks = 2, decode_payload = example_decode,
       trace = [Authenticate ''192.168.1.1'' ''boschrexroth'' ''secret'' (- 1)]\<rparr>,
      \<lparr>hostname = ''192.168.1.1'', username = ''boschrexroth'', password = ''secret'',
       token = Some ''h.e30-.s'', tokenType = Some ''Bearer'',
       token_decoded = Some (JwtClaims (Some 4600) (Some 1000)),
       token_expireTime = Some 8570001, state = STATE_LOGGED_IN,
       timeout = - 1, autoReconnect = True\<rparr>)"
  by (simp add: example_reconnecting_def example_device_def logIn.simps run_defs)

text \<open>The session with \<^verbatim>\<open>autoReconnect\<close> set is the one that login has produced.\<close>

lemma example_auto_reached: "snd example_reconnecting = example_auto"
  by (simp add: example_reconnecting_eq example_auto_def example_session_def
      set_autoReconnect_def)


subsection \<open>What the data operations preserve\<close>

text \<open>
  A property of the instance that every login preserves, and that survives the assignment
  of the \<^verbatim>\<open>.finally\<close> handler when \<^verbatim>\<open>autoReconnect\<close> is set, is preserved by each data
  operation. The proof follows the recursion of the operation.
\<close>

lemma datalayerRead_preserves:
  assumes login: "\<And>w c out w1 c1. Q c \<Longrightarrow> logIn w c = (out, w1, c1) \<Longrightarrow> Q c1"
    and fin: "\<And>c c'. Q c \<Longrightarrow> autoReconnect c \<Longrightarrow> Q c' \<Longrightarrow> Q (c'\<lparr>state := STATE_LOGGED_IN\<rparr>)"
  shows "Q c \<Longrightarrow> Q (snd (snd (datalayerRead w c path data type)))"
proof (induction w c path data type rule: datalayerRead.induct)
  case (1 w c path data type)
  note Qc = "1.prems"
  show ?case
  proof (cases "state c \<noteq> STATE_LOGGED_IN")
    case True
    with Qc show ?thesis by (simp add: datalayerRead.simps[of w c])
  next
    case li: False
    show ?thesis
    proof (cases "past (Date_now w) (token_expireTime c)")
      case True
      obtain out w1 c1 where l: "logIn (tick w) c = (out, w1, c1)"
        by (cases "logIn (tick w) c") auto
      from login[OF Qc l] have Q1: "Q c1" .
      show ?thesis
      proof (cases out)
        case (Resolved d)
        from "1.IH"(1)[OF li True l[symmetric] Resolved refl Q1] li True l Resolved
        show ?thesis by (simp add: datalayerRead.simps[of w c])
      next
        case (Rejected e)
        with li True l Q1 show ?thesis by (simp add: datalayerRead.simps[of w c])
      next
        case Pending
        with li True l Q1 show ?thesis by (simp add: datalayerRead.simps[of w c])
      qed
    next
      case np: False
      obtain r w1 where t: "CtrlxDatalayer_read (tick w) (hostname c) (tokenType c) (token c) path data type (timeout c) = (r, w1)"
        by (cases "CtrlxDatalayer_read (tick w) (hostname c) (tokenType c) (token c) path data type (timeout c)") auto
      show ?thesis
      proof (cases r)
        case None
        with li np t Qc show ?thesis by (simp add: datalayerRead.simps[of w c])
      next
        case (Some resp)
        obtain err data2 where resp: "resp = DlResponse err data2" by (cases resp) auto
        show ?thesis
        proof (cases "\<exists>e. err = Some e \<and> status e = Some 401 \<and> autoReconnect c")
          case False
          with li np t Some resp Qc show ?thesis
            by (auto simp: datalayerRead.simps[of w c] split: option.splits)
        next
          case True
          then obtain e where e: "err = Some e" "status e = Some 401" "autoReconnect c" by auto
          obtain out w2 c2 where l: "logIn w1 c = (out, w2, c2)"
            by (cases "logIn w1 c") auto
          from login[OF Qc l] have Q2: "Q c2" .
          show ?thesis
          proof (cases out)
            case (Resolved d)
            have e': "status e = Some 401 \<and> autoReconnect c" using e by simp
            from "1.IH"(2)[OF li np t[symmetric] Some resp e(1) e' l[symmetric] Resolved refl Q2]
            have "Q (snd (snd (datalayerRead w2 c2 path data2 type)))" .
            with fin[OF Qc e(3)] li np t Some resp e l Resolved show ?thesis
              by (auto simp: datalayerRead.simps[of w c] split: prod.splits outcome.splits)
          next
            case (Rejected e2)
            with fin[OF Qc e(3) Q2] li np t Some resp e l show ?thesis
              by (simp add: datalayerRead.simps[of w c])
          next
            case Pending
            with li np t Some resp e l Q2 show ?thesis
              by (simp add: datalayerRead.simps[of w c])
          qed
        qed
      qed
    qed
  qed
qed

lemma datalayerWrite_preserves:
  assumes login: "\<And>w c out w1 c1. Q c \<Longrightarrow> logIn w c = (out, w1, c1) \<Longrightarrow> Q c1"
    and fin: "\<And>c c'. Q c \<Longrightarrow> autoReconnect c \<Longrightarrow> Q c' \<Longrightarrow> Q (c'\<lparr>state := STATE_LOGGED_IN\<rparr>)"
  shows "Q c \<Longrightarrow> Q (snd (snd (datalayerWrite w c path data)))"
proof (induction w c path data rule: datalayerWrite.induct)
  case (1 w c path data)
  note Qc = "1.prems"
  show ?case
  proof (cases "state c \<noteq> STATE_LOGGED_IN")
    case True
    with Qc show ?thesis by (simp add: datalayerWrite.simps[of w c])
  next
    case li: False
    show ?thesis
    proof (cases "past (Date_now w) (token_expireTime c)")
      case True
      obtain out w1 c1 where l: "logIn (tick w) c = (out, w1, c1)"
        by (cases "logIn (tick w) c") auto
      from login[OF Qc l] have Q1: "Q c1" .
      show ?thesis
      proof (cases out)
        case (Resolved d)
        from "1.IH"(1)[OF li True l[symmetric] Resolved refl Q1] li True l Resolved
        show ?thesis by (simp add: datalayerWrite.simps[of w c])
      next
        case (Rejected e)
        with li True l Q1 show ?thesis by (simp add: datalayerWrite.simps[of w c])
      next
        case Pending
        with li True l Q1 show ?thesis by (simp add: datalayerWrite.simps[of w c])
      qed
    next
      case np: False
      obtain r w1 where t: "CtrlxDatalayer_write (tick w) (hostname c) (tokenType c) (token c) path data (timeout c) = (r, w1)"
        by (cases "CtrlxDatalayer_write (tick w) (hostname c) (tokenType c) (token c) path data (timeout c)") auto
      show ?thesis
      proof (cases r)
        case None
        with li np t Qc show ?thesis by (simp add: datalayerWrite.simps[of w c])
      next
        case (Some resp)
        obtain err data2 where resp: "resp = DlResponse err data2" by (cases resp) auto
        show ?thesis
        proof (cases "\<exists>e. err = Some e \<and> status e = Some 401 \<and> autoReconnect c")
          case False
          with li np t Some resp Qc show ?thesis
            by (auto simp: datalayerWrite.simps[of w c] split: option.splits)
        next
          case True
          then obtain e where e: "err = Some e" "status e = Some 401" "autoReconnect c" by auto
          obtain out w2 c2 where l: "logIn w1 c = (out, w2, c2)"
            by (cases "logIn w1 c") auto
          from login[OF Qc l] have Q2: "Q c2" .
          show ?thesis
          proof (cases out)
            case (Resolved d)
            have e': "status e = Some 401 \<and> autoReconnect c" using e by simp
            from "1.IH"(2)[OF li np t[symmetric] Some resp e(1) e' l[symmetric] Resolved refl Q2]
            have "Q (snd (snd (datalayerWrite w2 c2 path data)))" .
            with fin[OF Qc e(3)] li np t Some resp e l Resolved show ?thesis
              by (auto simp: datalayerWrite.simps[of w c] split: prod.splits outcome.splits)
          next
            case (Rejected e2)
            with fin[OF Qc e(3) Q2] li np t Some resp e l show ?thesis
              by (simp add: datalayerWrite.simps[of w c])
          next
            case Pending
            with li np t Some resp e l Q2 show ?thesis
              by (simp add: datalayerWrite.simps[of w c])
          qed
        qed
      qed
    qed
  qed
qed

lemma datalayerCreate_preserves:
  assumes login: "\<And>w c out w1 c1. Q c \<Longrightarrow> logIn w c = (out, w1, c1) \<Longrightarrow> Q c1"
    and fin: "\<And>c c'. Q c \<Longrightarrow> autoReconnect c \<Longrightarrow> Q c' \<Longrightarrow> Q (c'\<lparr>state := STATE_LOGGED_IN\<rparr>)"
  shows "Q c \<Longrightarrow> Q (snd (snd (datalayerCreate w c path data)))"
proof (induction w c path data rule: datalayerCreate.induct)
  case (1 w c path data)
  note Qc = "1.prems"
  show ?case
  proof (cases "state c \<noteq> STATE_LOGGED_IN")
    case True
    with Qc show ?thesis by (simp add: datalayerCreate.simps[of w c])
  next
    case li: False
    show ?thesis
    proof (cases "past (Date_now w) (token_expireTime c)")
      case True
      obtain out w1 c1 where l: "logIn (tick w) c = (out, w1, c1)"
        by (cases "logIn (tick w) c") auto
      from login[OF Qc l] have Q1: "Q c1" .
      show ?thesis
      proof (cases out)
        case (Resolved d)
        from "1.IH"(1)[OF li True l[symmetric] Resolved refl Q1] li True l Resolved
        show ?thesis by (simp add: datalayerCreate.simps[of w c])
      next
        case (Rejected e)
        with li True l Q1 show ?thesis by (simp add: datalayerCreate.simps[of w c])
      next
        case Pending
        with li True l Q1 show ?thesis by (simp add: datalayerCreate.simps[of w c])
      qed
    next
      case np: False
      obtain r w1 where t: "CtrlxDatalayer_create (tick w) (hostname c) (tokenType c) (token c) path data (timeout c) = (r, w1)"
        by (cases "CtrlxDatalayer_create (tick w) (hostname c) (tokenType c) (token c) path data (timeout c)") auto
      show ?thesis
      proof (cases r)
        case None
        with li np t Qc show ?thesis by (simp add: datalayerCreate.simps[of w c])
      next
        case (Some resp)
        obtain err data2 where resp: "resp = DlResponse err data2" by (cases resp) auto
        show ?thesis
        proof (cases "\<exists>e. err = Some e \<and> status e = Some 401 \<and> autoReconnect c")
          case False
          with li np t Some resp Qc show ?thesis
            by (auto simp: datalayerCreate.simps[of w c] split: option.splits)
        next
          case True
          then obtain e where e: "err = Some e" "status e = Some 401" "autoReconnect c" by auto
          obtain out w2 c2 where l: "logIn w1 c = (out, w2, c2)"
            by (cases "logIn w1 c") auto
          from login[OF Qc l] have Q2: "Q c2" .
          show ?thesis
          proof (cases out)
            case (Resolved d)
            have e': "status e = Some 401 \<and> autoReconnect c" using e by simp
            from "1.IH"(2)[OF li np t[symmetric] Some resp e(1) e' l[symmetric] Resolved refl Q2]
            have "Q (snd (snd (datalayerCreate w2 c2 path data)))" .
            with fin[OF Qc e(3)] li np t Some resp e l Resolved show ?thesis
              by (auto simp: datalayerCreate.simps[of w c] split: prod.splits outcome.splits)
          next
            case (Rejected e2)
            with fin[OF Qc e(3) Q2] li np t Some resp e l show ?thesis
              by (simp add: datalayerCreate.simps[of w c])
          next
            case Pending
            with li np t Some resp e l Q2 show ?thesis
              by (simp add: datalayerCreate.simps[of w c])
          qed
        qed
      qed
    qed
  qed
qed

lemma datalayerDelete_preserves:
  assumes login: "\<And>w c out w1 c1. Q c \<Longrightarrow> logIn w c = (out, w1, c1) \<Longrightarrow> Q c1"
    and fin: "\<And>c c'. Q c \<Longrightarrow> autoReconnect c \<Longrightarrow> Q c' \<Longrightarrow> Q (c'\<lparr>state := STATE_LOGGED_IN\<rparr>)"
  shows "Q c \<Longrightarrow> Q (snd (snd (datalayerDelete w c path)))"
proof (induction w c path rule: datalayerDelete.induct)
  case (1 w c path)
  note Qc = "1.prems"
  show ?case
  proof (cases "state c \<noteq> STATE_LOGGED_IN")
    case True
    with Qc show ?thesis by (simp add: datalayerDelete.simps[of w c])
  next
    case li: False
    show ?thesis
    proof (cases "past (Date_now w) (token_expireTime c)")
      case True
      obtain out w1 c1 where l: "logIn (tick w) c = (out, w1, c1)"
        by (cases "logIn (tick w) c") auto
      from login[OF Qc l] have Q1: "Q c1" .
      show ?thesis
      proof (cases out)
        case (Resolved d)
        from "1.IH"(1)[OF li True l[symmetric] Resolved refl Q1] li True l Resolved
        show ?thesis by (simp add: datalayerDelete.simps[of w c])
      next
        case (Rejected e)
        with li True l Q1 show ?thesis by (simp add: datalayerDelete.simps[of w c])
      next
        case Pending
        with li True l Q1 show ?thesis by (simp add: datalayerDelete.simps[of w c])
      qed
    next
      case np: False
      obtain r w1 where t: "CtrlxDatalayer_delete (tick w) (hostname c) (tokenType c) (token c) path (timeout c) = (r, w1)"
        by (cases "CtrlxDatalayer_delete (tick w) (hostname c) (tokenType c) (token c) path (timeout c)") auto
      show ?thesis
      proof (cases r)
        case None
        with li np t Qc show ?thesis by (simp add: datalayerDelete.simps[of w c])
      next
        case (Some resp)
        obtain err data2 where resp: "resp = DlResponse err data2" by (cases resp) auto
        show ?thesis
        proof (cases "\<exists>e. err = Some e \<and> status e = Some 401 \<and> autoReconnect c")
          case False
          with li np t Some resp Qc show ?thesis
            by (auto simp: datalayerDelete.simps[of w c] split: option.splits)
        next
          case True
          then obtain e where e: "err = Some e" "status e = Some 401" "autoReconnect c" by auto
          obtain out w2 c2 where l: "logIn w1 c = (out, w2, c2)"
            by (cases "logIn w1 c") auto
          from login[OF Qc l] have Q2: "Q c2" .
          show ?thesis
          proof (cases out)
            case (Resolved d)
            have e': "status e = Some 401 \<and> autoReconnect c" using e by simp
            from "1.IH"(2)[OF li np t[symmetric] Some resp e(1) e' l[symmetric] Resolved refl Q2]
            have "Q (snd (snd (datalayerDelete w2 c2 path)))" .
            with fin[OF Qc e(3)] li np t Some resp e l Resolved show ?thesis
              by (auto simp: datalayerDelete.simps[of w c] split: prod.splits outcome.splits)
          next
            case (Rejected e2)
            with fin[OF Qc e(3) Q2] li np t Some resp e l show ?thesis
              by (simp add: datalayerDelete.simps[of w c])
          next
            case Pending
            with li np t Some resp e l Q2 show ?thesis
              by (simp add: datalayerDelete.simps[of w c])
          qed
        qed
      qed
    qed
  qed
qed


lemma logIn_absent:
  "absent_not_logged_in c \<and> \<not> autoReconnect c \<Longrightarrow> logIn w c = (out, w1, c1) \<Longrightarrow>
     absent_not_logged_in c1 \<and> \<not> autoReconnect c1"
  by (drule logIn_post) (auto simp: absent_not_logged_in_def split: outcome.splits)







lemma datalayerRead_absent:
  assumes "absent_not_logged_in c" and "\<not> autoReconnect c"
  shows "absent_not_logged_in (snd (snd (datalayerRead w c path data type)))"
proof -
  have "absent_not_logged_in (snd (snd (datalayerRead w c path data type))) \<and>
        \<not> autoReconnect (snd (snd (datalayerRead w c path data type)))"
    by (rule datalayerRead_preserves[where Q = "\<lambda>c. absent_not_logged_in c \<and> \<not> autoReconnect c"])
       (erule (1) logIn_absent, simp, simp add: assms)
  then show ?thesis by simp
qed


lemma datalayerWrite_absent:
  assumes "absent_not_logged_in c" and "\<not> autoReconnect c"
  shows "absent_not_logged_in (snd (snd (datalayerWrite w c path data)))"
proof -
  have "absent_not_logged_in (snd (snd (datalayerWrite w c path data))) \<and>
        \<not> autoReconnect (snd (snd (datalayerWrite w c path data)))"
    by (rule datalayerWrite_preserves[where Q = "\<lambda>c. absent_not_logged_in c \<and> \<not> autoReconnect c"])
       (erule (1) logIn_absent, simp, simp add: assms)
  then show ?thesis by simp
qed


lemma datalayerCreate_absent:
  assumes "absent_not_logged_in c" and "\<not> autoReconnect c"
  shows "absent_not_logged_in (snd (snd (datalayerCreate w c path data)))"
proof -
  have "absent_not_logged_in (snd (snd (datalayerCreate w c path data))) \<and>
        \<not> autoReconnect (snd (snd (datalayerCreate w c path data)))"
    by (rule datalayerCreate_preserves[where Q = "\<lambda>c. absent_not_logged_in c \<and> \<not> autoReconnect c"])
       (erule (1) logIn_absent, simp, simp add: assms)
  then show ?thesis by simp
qed


lemma datalayerDelete_absent:
  assumes "absent_not_logged_in c" and "\<not> autoReconnect c"
  shows "absent_not_logged_in (snd (snd (datalayerDelete w c path)))"
proof -
  have "absent_not_logged_in (snd (snd (datalayerDelete w c path))) \<and>
        \<not> autoReconnect (snd (snd (datalayerDelete w c path)))"
    by (rule datalayerDelete_preserves[where Q = "\<lambda>c. absent_not_logged_in c \<and> \<not> autoReconnect c"])
       (erule (1) logIn_absent, simp, simp add: assms)
  then show ?thesis by simp
qed

subsection \<open>The outcome of a login\<close>

text \<open>What a logout changes in the world: one request more in the log, one answer less.\<close>

lemma logOut_world:
  "logOut w c = (out, w1, c1) \<Longrightarrow>
     auth_script w1 = auth_script w \<and> dl_script w1 = dl_script w \<and>
     decode_payload w1 = decode_payload w \<and> clock w1 = clock w \<and> ticks w1 = ticks w \<and>
     trace w1 = trace w @ [DeleteToken (hostname c) (tokenType c) (token c) (timeout c)]"
  by (auto simp: logOut_def deleteToken_def send_def Let_def
      split: prod.splits option.splits list.splits)

text \<open>
  A login that settles has received the next answer of the authentication endpoint, and
  its outcome is the callback's on that answer, with the clock and the decoder as they were.
\<close>

lemma logIn_settled:
  assumes l: "logIn w c = (out, w1, c1)" and np: "out \<noteq> Pending"
  shows "\<exists>w0 c0 r rest. auth_script w = r # rest \<and>
           decode_payload w0 = decode_payload w \<and> clock w0 = clock w \<and> ticks w0 = ticks w \<and>
           logIn_callback w0 c0 r = (out, w1, c1)"
proof (cases "state c = STATE_LOGGED_IN \<or> state c = STATE_AUTHENTICATING")
  case True
  obtain out' w' c' where lo: "logOut w c = (out', w', c')"
    by (cases "logOut w c") auto
  let ?w = "send (Authenticate (hostname c) (username c) (password c) (timeout c)) w'"
  from l np lo obtain r rest where s: "auth_script w' = r # rest"
    and cb: "logIn_callback (?w\<lparr>auth_script := rest\<rparr>)
               ((invalidate c)\<lparr>state := STATE_AUTHENTICATING\<rparr>) r = (out, w1, c1)"
    unfolding logIn_again[OF True]
    by (auto simp: authenticate_def send_def Let_def
        split: outcome.splits prod.splits option.splits list.splits)
  have "decode_payload (?w\<lparr>auth_script := rest\<rparr>) = decode_payload w \<and>
        clock (?w\<lparr>auth_script := rest\<rparr>) = clock w \<and>
        ticks (?w\<lparr>auth_script := rest\<rparr>) = ticks w"
    using logOut_world[OF lo] by (simp add: send_def)
  with s cb logOut_world[OF lo] show ?thesis by metis
next
  case False
  then have f: "state c \<noteq> STATE_LOGGED_IN" "state c \<noteq> STATE_AUTHENTICATING"
    by simp_all
  let ?w = "send (Authenticate (hostname c) (username c) (password c) (timeout c)) w"
  from l np obtain r rest where s: "auth_script w = r # rest"
    and cb: "logIn_callback (?w\<lparr>auth_script := rest\<rparr>) (c\<lparr>state := STATE_AUTHENTICATING\<rparr>) r
               = (out, w1, c1)"
    unfolding logIn_fresh[OF f]
    by (auto simp: authenticate_def send_def Let_def
        split: prod.splits option.splits list.splits)
  have "decode_payload (?w\<lparr>auth_script := rest\<rparr>) = decode_payload w \<and>
        clock (?w\<lparr>auth_script := rest\<rparr>) = clock w \<and>
        ticks (?w\<lparr>auth_script := rest\<rparr>) = ticks w"
    by (simp add: send_def)
  with s cb show ?thesis by blast
qed

lemma logIn_callback_resolved:
  "logIn_callback w c r = (Resolved d, w1, c1) \<Longrightarrow>
     (\<exists>a p. r = AuthData a \<and> \<not> falsy (access_token a) \<and> \<not> falsy (token_type a) \<and>
        parseJwt (decode_payload w) (the (access_token a)) = Inr p \<and> p \<noteq> JwtNull \<and>
        access_token d = access_token a \<and> token_type d = token_type a \<and>
        data_token_decoded d = p \<and>
        data_token_expireTime d = expireTime (clock w (ticks w)) (tokenExpiresInSeconds p) \<and>
        token c1 = access_token a \<and> tokenType c1 = token_type a \<and>
        token_decoded c1 = Some p \<and>
        token_expireTime c1 = expireTime (clock w (ticks w)) (tokenExpiresInSeconds p)) \<and>
     state c1 = STATE_LOGGED_IN \<and> w1 = tick w \<and>
     hostname c1 = hostname c \<and> username c1 = username c \<and> password c1 = password c \<and>
     timeout c1 = timeout c \<and> autoReconnect c1 = autoReconnect c"
  by (auto simp: logIn_callback_def Let_def Date_now_def auth_data.extend_def
      split: auth_response.splits if_splits sum.splits jwt_payload.splits)

text \<open>
  The requests of a login that settles: the logout's when the session was logged in or
  authenticating, then the authentication. A login that resolves has stored the credential
  and the scheme of the answer it received.
\<close>

lemma logIn_callback_world:
  "logIn_callback w c r = (out, w1, c1) \<Longrightarrow>
     auth_script w1 = auth_script w \<and> revoke_script w1 = revoke_script w \<and>
     dl_script w1 = dl_script w \<and> trace w1 = trace w \<and>
     clock w1 = clock w \<and> decode_payload w1 = decode_payload w \<and>
     hostname c1 = hostname c \<and> username c1 = username c \<and> password c1 = password c \<and>
     timeout c1 = timeout c \<and> autoReconnect c1 = autoReconnect c"
  by (auto simp: logIn_callback_def Let_def tick_def invalidate_def
      split: auth_response.splits if_splits sum.splits jwt_payload.splits)

lemma logIn_requests:
  assumes l: "logIn w c = (out, w1, c1)" and np: "out \<noteq> Pending"
  shows "trace w1 = trace w @
           (if state c = STATE_LOGGED_IN \<or> state c = STATE_AUTHENTICATING
            then [DeleteToken (hostname c) (tokenType c) (token c) (timeout c)] else []) @
           [Authenticate (hostname c) (username c) (password c) (timeout c)] \<and>
         dl_script w1 = dl_script w \<and>
         hostname c1 = hostname c \<and> username c1 = username c \<and> password c1 = password c \<and>
         timeout c1 = timeout c \<and> autoReconnect c1 = autoReconnect c"
proof (cases "state c = STATE_LOGGED_IN \<or> state c = STATE_AUTHENTICATING")
  case True
  obtain out' w' c' where lo: "logOut w c = (out', w', c')"
    by (cases "logOut w c") auto
  let ?w = "send (Authenticate (hostname c) (username c) (password c) (timeout c)) w'"
  from l np lo obtain r rest where
    cb: "logIn_callback (?w\<lparr>auth_script := rest\<rparr>)
               ((invalidate c)\<lparr>state := STATE_AUTHENTICATING\<rparr>) r = (out, w1, c1)"
    unfolding logIn_again[OF True]
    by (auto simp: authenticate_def send_def Let_def
        split: outcome.splits prod.splits option.splits list.splits)
  from logIn_callback_world[OF cb] logOut_world[OF lo] True show ?thesis
    by (simp add: send_def invalidate_def)
next
  case False
  then have f: "state c \<noteq> STATE_LOGGED_IN" "state c \<noteq> STATE_AUTHENTICATING"
    by simp_all
  let ?w = "send (Authenticate (hostname c) (username c) (password c) (timeout c)) w"
  from l np obtain r rest where
    cb: "logIn_callback (?w\<lparr>auth_script := rest\<rparr>) (c\<lparr>state := STATE_AUTHENTICATING\<rparr>) r
               = (out, w1, c1)"
    unfolding logIn_fresh[OF f]
    by (auto simp: authenticate_def send_def Let_def
        split: prod.splits option.splits list.splits)
  from logIn_callback_world[OF cb] False show ?thesis
    by (simp add: send_def)
qed

lemma logIn_token:
  assumes l: "logIn w c = (Resolved ld, w1, c1)"
  shows "token c1 = access_token ld \<and> tokenType c1 = token_type ld \<and>
         state c1 = STATE_LOGGED_IN \<and>
         (\<exists>rest. auth_script w =
            AuthData \<lparr>access_token = access_token ld, token_type = token_type ld\<rparr> # rest)"
proof -
  from logIn_settled[OF l] obtain w0 c0 r rest where
    s: "auth_script w = r # rest"
    and cb: "logIn_callback w0 c0 r = (Resolved ld, w1, c1)" by auto
  from logIn_callback_resolved[OF cb] obtain a where
    "r = AuthData a" "access_token ld = access_token a" "token_type ld = token_type a"
    "token c1 = access_token a" "tokenType c1 = token_type a" "state c1 = STATE_LOGGED_IN"
    by auto
  with s show ?thesis by simp
qed

lemma transport_world:
  "transport x w = (r, w1) \<Longrightarrow>
     trace w1 = trace w @ [x] \<and> auth_script w1 = auth_script w \<and>
     revoke_script w1 = revoke_script w \<and> clock w1 = clock w \<and> ticks w1 = ticks w \<and>
     decode_payload w1 = decode_payload w \<and>
     (case r of None \<Rightarrow> dl_script w = [] \<and> dl_script w1 = []
      | Some a \<Rightarrow> dl_script w = a # dl_script w1)"
  by (auto simp: transport_def send_def Let_def split: list.splits)

lemma logIn_trace_grows:
  assumes l: "logIn w c = (out, w1, c1)" and p: "trace w = pre @ m"
  shows "\<exists>more. trace w1 = pre @ more"
proof (cases "out = Pending")
  case False
  from logIn_requests[OF l False] p show ?thesis by simp
next
  case True
  show ?thesis
  proof (cases "state c = STATE_LOGGED_IN \<or> state c = STATE_AUTHENTICATING")
    case t: True
    obtain out' w' c' where lo: "logOut w c = (out', w', c')"
      by (cases "logOut w c") auto
    from l True lo logOut_world[OF lo] p show ?thesis
      unfolding logIn_again[OF t]
      by (auto simp: authenticate_def send_def Let_def
          split: outcome.splits prod.splits option.splits list.splits
          dest!: logIn_callback_world)
  next
    case False
    then have f: "state c \<noteq> STATE_LOGGED_IN" "state c \<noteq> STATE_AUTHENTICATING"
      by simp_all
    from l True p show ?thesis
      unfolding logIn_fresh[OF f]
      by (auto simp: authenticate_def send_def Let_def
          split: prod.splits option.splits list.splits dest!: logIn_callback_world)
  qed
qed

subsection \<open>The requests of the data operations\<close>

text \<open>
  A property of the world that the clock, the transport and every login preserve is
  preserved by each data operation; so the log of requests only grows. Then, for each
  operation: with a token that is not past its expiry time the first request is the
  transport's, with the cached credential; with a token past it the login comes first; and
  a transport failure is followed by a login only for status 401 with
  \<^verbatim>\<open>autoReconnect\<close> set.
\<close>

paragraph \<open>datalayerRead\<close>

lemma datalayerRead_world:
  assumes tk: "\<And>w. P w \<Longrightarrow> P (tick w)"
    and tr: "\<And>w x r w1. P w \<Longrightarrow> transport x w = (r, w1) \<Longrightarrow> P w1"
    and login: "\<And>w c out w1 c1. P w \<Longrightarrow> logIn w c = (out, w1, c1) \<Longrightarrow> P w1"
  shows "P w \<Longrightarrow> P (fst (snd (datalayerRead w c path data type)))"
proof (induction w c path data type rule: datalayerRead.induct)
  case (1 w c path data type)
  note Pw = "1.prems"
  show ?case
  proof (cases "state c \<noteq> STATE_LOGGED_IN")
    case True
    with Pw show ?thesis by (simp add: datalayerRead.simps[of w c])
  next
    case li: False
    show ?thesis
    proof (cases "past (Date_now w) (token_expireTime c)")
      case True
      obtain out w1 c1 where l: "logIn (tick w) c = (out, w1, c1)"
        by (cases "logIn (tick w) c") auto
      from login[OF tk[OF Pw] l] have P1: "P w1" .
      show ?thesis
      proof (cases out)
        case (Resolved d)
        from "1.IH"(1)[OF li True l[symmetric] Resolved refl P1] li True l Resolved
        show ?thesis by (simp add: datalayerRead.simps[of w c])
      next
        case (Rejected e)
        with li True l P1 show ?thesis by (simp add: datalayerRead.simps[of w c])
      next
        case Pending
        with li True l P1 show ?thesis by (simp add: datalayerRead.simps[of w c])
      qed
    next
      case np: False
      obtain r w1 where t: "CtrlxDatalayer_read (tick w) (hostname c) (tokenType c) (token c) path data type (timeout c) = (r, w1)"
        by (cases "CtrlxDatalayer_read (tick w) (hostname c) (tokenType c) (token c) path data type (timeout c)") auto
      from tr[OF tk[OF Pw] t[unfolded CtrlxDatalayer_read_def]] have P1: "P w1" .
      show ?thesis
      proof (cases r)
        case None
        with li np t P1 show ?thesis by (simp add: datalayerRead.simps[of w c])
      next
        case (Some resp)
        obtain err data2 where resp: "resp = DlResponse err data2" by (cases resp) auto
        show ?thesis
        proof (cases "\<exists>e. err = Some e \<and> status e = Some 401 \<and> autoReconnect c")
          case False
          with li np t Some resp P1 show ?thesis
            by (auto simp: datalayerRead.simps[of w c] split: option.splits)
        next
          case True
          then obtain e where e: "err = Some e" "status e = Some 401" "autoReconnect c" by auto
          obtain out w2 c2 where l: "logIn w1 c = (out, w2, c2)"
            by (cases "logIn w1 c") auto
          from login[OF P1 l] have P2: "P w2" .
          show ?thesis
          proof (cases out)
            case (Resolved d)
            have e': "status e = Some 401 \<and> autoReconnect c" using e by simp
            from "1.IH"(2)[OF li np t[symmetric] Some resp e(1) e' l[symmetric] Resolved refl P2]
            have "P (fst (snd (datalayerRead w2 c2 path data2 type)))" .
            with li np t Some resp e l Resolved show ?thesis
              by (auto simp: datalayerRead.simps[of w c] split: prod.splits outcome.splits)
          next
            case (Rejected e2)
            with P2 li np t Some resp e l show ?thesis
              by (simp add: datalayerRead.simps[of w c])
          next
            case Pending
            with li np t Some resp e l P2 show ?thesis
              by (simp add: datalayerRead.simps[of w c])
          qed
        qed
      qed
    qed
  qed
qed

lemma datalayerRead_trace_grows:
  assumes "datalayerRead w c path data type = (out, w1, c1)" and "trace w = pre @ m"
  shows "\<exists>more. trace w1 = pre @ more"
proof -
  have "\<exists>more. trace (fst (snd (datalayerRead w c path data type))) = pre @ more"
    by (rule datalayerRead_world[where P = "\<lambda>w. \<exists>more. trace w = pre @ more"])
       (auto simp: tick_def assms(2) dest!: transport_world dest: logIn_trace_grows)
  with assms(1) show ?thesis by simp
qed

lemma datalayerRead_delegates:
  assumes li: "state c = STATE_LOGGED_IN"
    and np: "\<not> past (Date_now w) (token_expireTime c)"
  shows "\<exists>more. trace (fst (snd (datalayerRead w c path data type))) =
           trace w @ DlRead (hostname c) (tokenType c) (token c) path data type (timeout c) # more"
proof -
  let ?x = "DlRead (hostname c) (tokenType c) (token c) path data type (timeout c)"
  obtain r w1 where t: "transport ?x (tick w) = (r, w1)"
    by (cases "transport ?x (tick w)") auto
  from transport_world[OF t] have p: "trace w1 = (trace w @ [?x]) @ []"
    by (simp add: tick_def)
  have g: "\<exists>more. trace w2 = (trace w @ [?x]) @ more" if "logIn w1 c = (out, w2, c2)" for out w2 c2
    using logIn_trace_grows[OF that p] .
  have "\<exists>more. trace (fst (snd (datalayerRead w c path data type))) = (trace w @ [?x]) @ more"
    using li np t p
    by (auto simp: datalayerRead.simps[of w c] CtrlxDatalayer_read_def
        split: option.splits dl_response.splits prod.splits outcome.splits
        dest!: g dest: datalayerRead_trace_grows)
  then show ?thesis by simp
qed

lemma datalayerRead_renews:
  assumes li: "state c = STATE_LOGGED_IN"
    and pa: "past (Date_now w) (token_expireTime c)"
  shows "(case fst (logIn (tick w) c) of
      Resolved ld \<Rightarrow>
        datalayerRead w c path data type =
          datalayerRead (fst (snd (logIn (tick w) c))) (snd (snd (logIn (tick w) c))) path data type \<and>
        trace (fst (snd (logIn (tick w) c))) = trace w @
          [DeleteToken (hostname c) (tokenType c) (token c) (timeout c),
           Authenticate (hostname c) (username c) (password c) (timeout c)] \<and>
        (\<exists>rest. auth_script w =
           AuthData \<lparr>access_token = access_token ld, token_type = token_type ld\<rparr> # rest) \<and>
        token (snd (snd (logIn (tick w) c))) = access_token ld \<and>
        tokenType (snd (snd (logIn (tick w) c))) = token_type ld \<and>
        (\<not> past (Date_now (fst (snd (logIn (tick w) c))))
              (token_expireTime (snd (snd (logIn (tick w) c)))) \<longrightarrow>
         (\<exists>more. trace (fst (snd (datalayerRead w c path data type))) =
            trace (fst (snd (logIn (tick w) c))) @
            DlRead (hostname c) (token_type ld) (access_token ld) path data type (timeout c) # more))
    | Rejected e \<Rightarrow> datalayerRead w c path data type = (Rejected e, snd (logIn (tick w) c))
    | Pending \<Rightarrow> datalayerRead w c path data type = (Pending, snd (logIn (tick w) c)))"
proof -
  obtain out w1 c1 where l: "logIn (tick w) c = (out, w1, c1)"
    by (cases "logIn (tick w) c") auto
  show ?thesis
  proof (cases out)
    case (Resolved ld)
    with l have lr: "logIn (tick w) c = (Resolved ld, w1, c1)" by simp
    have eq: "datalayerRead w c path data type = datalayerRead w1 c1 path data type"
      using li pa lr by (simp add: datalayerRead.simps[of w c])
    from logIn_requests[OF lr] li
    have tr: "trace w1 = trace w @
          [DeleteToken (hostname c) (tokenType c) (token c) (timeout c),
           Authenticate (hostname c) (username c) (password c) (timeout c)]"
      and same: "hostname c1 = hostname c" "timeout c1 = timeout c"
      by (simp_all add: tick_def)
    from logIn_token[OF lr]
    have tok: "token c1 = access_token ld" "tokenType c1 = token_type ld"
      "state c1 = STATE_LOGGED_IN"
      and au: "\<exists>rest. auth_script w =
           AuthData \<lparr>access_token = access_token ld, token_type = token_type ld\<rparr> # rest"
      by (simp_all add: tick_def)
    have "\<exists>more. trace (fst (snd (datalayerRead w c path data type))) =
            trace w1 @ DlRead (hostname c) (token_type ld) (access_token ld) path data type (timeout c) # more"
      if "\<not> past (Date_now w1) (token_expireTime c1)"
      using datalayerRead_delegates[OF tok(3) that, of path data type] eq same tok by simp
    with eq tr au tok lr show ?thesis by simp
  next
    case (Rejected e)
    with l li pa show ?thesis by (simp add: datalayerRead.simps[of w c])
  next
    case Pending
    with l li pa show ?thesis by (simp add: datalayerRead.simps[of w c])
  qed
qed


paragraph \<open>datalayerWrite\<close>

lemma datalayerWrite_world:
  assumes tk: "\<And>w. P w \<Longrightarrow> P (tick w)"
    and tr: "\<And>w x r w1. P w \<Longrightarrow> transport x w = (r, w1) \<Longrightarrow> P w1"
    and login: "\<And>w c out w1 c1. P w \<Longrightarrow> logIn w c = (out, w1, c1) \<Longrightarrow> P w1"
  shows "P w \<Longrightarrow> P (fst (snd (datalayerWrite w c path data)))"
proof (induction w c path data rule: datalayerWrite.induct)
  case (1 w c path data)
  note Pw = "1.prems"
  show ?case
  proof (cases "state c \<noteq> STATE_LOGGED_IN")
    case True
    with Pw show ?thesis by (simp add: datalayerWrite.simps[of w c])
  next
    case li: False
    show ?thesis
    proof (cases "past (Date_now w) (token_expireTime c)")
      case True
      obtain out w1 c1 where l: "logIn (tick w) c = (out, w1, c1)"
        by (cases "logIn (tick w) c") auto
      from login[OF tk[OF Pw] l] have P1: "P w1" .
      show ?thesis
      proof (cases out)
        case (Resolved d)
        from "1.IH"(1)[OF li True l[symmetric] Resolved refl P1] li True l Resolved
        show ?thesis by (simp add: datalayerWrite.simps[of w c])
      next
        case (Rejected e)
        with li True l P1 show ?thesis by (simp add: datalayerWrite.simps[of w c])
      next
        case Pending
        with li True l P1 show ?thesis by (simp add: datalayerWrite.simps[of w c])
      qed
    next
      case np: False
      obtain r w1 where t: "CtrlxDatalayer_write (tick w) (hostname c) (tokenType c) (token c) path data (timeout c) = (r, w1)"
        by (cases "CtrlxDatalayer_write (tick w) (hostname c) (tokenType c) (token c) path data (timeout c)") auto
      from tr[OF tk[OF Pw] t[unfolded CtrlxDatalayer_write_def]] have P1: "P w1" .
      show ?thesis
      proof (cases r)
        case None
        with li np t P1 show ?thesis by (simp add: datalayerWrite.simps[of w c])
      next
        case (Some resp)
        obtain err data2 where resp: "resp = DlResponse err data2" by (cases resp) auto
        show ?thesis
        proof (cases "\<exists>e. err = Some e \<and> status e = Some 401 \<and> autoReconnect c")
          case False
          with li np t Some resp P1 show ?thesis
            by (auto simp: datalayerWrite.simps[of w c] split: option.splits)
        next
          case True
          then obtain e where e: "err = Some e" "status e = Some 401" "autoReconnect c" by auto
          obtain out w2 c2 where l: "logIn w1 c = (out, w2, c2)"
            by (cases "logIn w1 c") auto
          from login[OF P1 l] have P2: "P w2" .
          show ?thesis
          proof (cases out)
            case (Resolved d)
            have e': "status e = Some 401 \<and> autoReconnect c" using e by simp
            from "1.IH"(2)[OF li np t[symmetric] Some resp e(1) e' l[symmetric] Resolved refl P2]
            have "P (fst (snd (datalayerWrite w2 c2 path data)))" .
            with li np t Some resp e l Resolved show ?thesis
              by (auto simp: datalayerWrite.simps[of w c] split: prod.splits outcome.splits)
          next
            case (Rejected e2)
            with P2 li np t Some resp e l show ?thesis
              by (simp add: datalayerWrite.simps[of w c])
          next
            case Pending
            with li np t Some resp e l P2 show ?thesis
              by (simp add: datalayerWrite.simps[of w c])
          qed
        qed
      qed
    qed
  qed
qed

lemma datalayerWrite_trace_grows:
  assumes "datalayerWrite w c path data = (out, w1, c1)" and "trace w = pre @ m"
  shows "\<exists>more. trace w1 = pre @ more"
proof -
  have "\<exists>more. trace (fst (snd (datalayerWrite w c path data))) = pre @ more"
    by (rule datalayerWrite_world[where P = "\<lambda>w. \<exists>more. trace w = pre @ more"])
       (auto simp: tick_def assms(2) dest!: transport_world dest: logIn_trace_grows)
  with assms(1) show ?thesis by simp
qed

lemma datalayerWrite_delegates:
  assumes li: "state c = STATE_LOGGED_IN"
    and np: "\<not> past (Date_now w) (token_expireTime c)"
  shows "\<exists>more. trace (fst (snd (datalayerWrite w c path data))) =
           trace w @ DlWrite (hostname c) (tokenType c) (token c) path data (timeout c) # more"
proof -
  let ?x = "DlWrite (hostname c) (tokenType c) (token c) path data (timeout c)"
  obtain r w1 where t: "transport ?x (tick w) = (r, w1)"
    by (cases "transport ?x (tick w)") auto
  from transport_world[OF t] have p: "trace w1 = (trace w @ [?x]) @ []"
    by (simp add: tick_def)
  have g: "\<exists>more. trace w2 = (trace w @ [?x]) @ more" if "logIn w1 c = (out, w2, c2)" for out w2 c2
    using logIn_trace_grows[OF that p] .
  have "\<exists>more. trace (fst (snd (datalayerWrite w c path data))) = (trace w @ [?x]) @ more"
    using li np t p
    by (auto simp: datalayerWrite.simps[of w c] CtrlxDatalayer_write_def
        split: option.splits dl_response.splits prod.splits outcome.splits
        dest!: g dest: datalayerWrite_trace_grows)
  then show ?thesis by simp
qed

lemma datalayerWrite_renews:
  assumes li: "state c = STATE_LOGGED_IN"
    and pa: "past (Date_now w) (token_expireTime c)"
  shows "(case fst (logIn (tick w) c) of
      Resolved ld \<Rightarrow>
        datalayerWrite w c path data =
          datalayerWrite (fst (snd (logIn (tick w) c))) (snd (snd (logIn (tick w) c))) path data \<and>
        trace (fst (snd (logIn (tick w) c))) = trace w @
          [DeleteToken (hostname c) (tokenType c) (token c) (timeout c),
           Authenticate (hostname c) (username c) (password c) (timeout c)] \<and>
        (\<exists>rest. auth_script w =
           AuthData \<lparr>access_token = access_token ld, token_type = token_type ld\<rparr> # rest) \<and>
        token (snd (snd (logIn (tick w) c))) = access_token ld \<and>
        tokenType (snd (snd (logIn (tick w) c))) = token_type ld \<and>
        (\<not> past (Date_now (fst (snd (logIn (tick w) c))))
              (token_expireTime (snd (snd (logIn (tick w) c)))) \<longrightarrow>
         (\<exists>more. trace (fst (snd (datalayerWrite w c path data))) =
            trace (fst (snd (logIn (tick w) c))) @
            DlWrite (hostname c) (token_type ld) (access_token ld) path data (timeout c) # more))
    | Rejected e \<Rightarrow> datalayerWrite w c path data = (Rejected e, snd (logIn (tick w) c))
    | Pending \<Rightarrow> datalayerWrite w c path data = (Pending, snd (logIn (tick w) c)))"
proof -
  obtain out w1 c1 where l: "logIn (tick w) c = (out, w1, c1)"
    by (cases "logIn (tick w) c") auto
  show ?thesis
  proof (cases out)
    case (Resolved ld)
    with l have lr: "logIn (tick w) c = (Resolved ld, w1, c1)" by simp
    have eq: "datalayerWrite w c path data = datalayerWrite w1 c1 path data"
      using li pa lr by (simp add: datalayerWrite.simps[of w c])
    from logIn_requests[OF lr] li
    have tr: "trace w1 = trace w @
          [DeleteToken (hostname c) (tokenType c) (token c) (timeout c),
           Authenticate (hostname c) (username c) (password c) (timeout c)]"
      and same: "hostname c1 = hostname c" "timeout c1 = timeout c"
      by (simp_all add: tick_def)
    from logIn_token[OF lr]
    have tok: "token c1 = access_token ld" "tokenType c1 = token_type ld"
      "state c1 = STATE_LOGGED_IN"
      and au: "\<exists>rest. auth_script w =
           AuthData \<lparr>access_token = access_token ld, token_type = token_type ld\<rparr> # rest"
      by (simp_all add: tick_def)
    have "\<exists>more. trace (fst (snd (datalayerWrite w c path data))) =
            trace w1 @ DlWrite (hostname c) (token_type ld) (access_token ld) path data (timeout c) # more"
      if "\<not> past (Date_now w1) (token_expireTime c1)"
      using datalayerWrite_delegates[OF tok(3) that, of path data] eq same tok by simp
    with eq tr au tok lr show ?thesis by simp
  next
    case (Rejected e)
    with l li pa show ?thesis by (simp add: datalayerWrite.simps[of w c])
  next
    case Pending
    with l li pa show ?thesis by (simp add: datalayerWrite.simps[of w c])
  qed
qed


paragraph \<open>datalayerCreate\<close>

lemma datalayerCreate_world:
  assumes tk: "\<And>w. P w \<Longrightarrow> P (tick w)"
    and tr: "\<And>w x r w1. P w \<Longrightarrow> transport x w = (r, w1) \<Longrightarrow> P w1"
    and login: "\<And>w c out w1 c1. P w \<Longrightarrow> logIn w c = (out, w1, c1) \<Longrightarrow> P w1"
  shows "P w \<Longrightarrow> P (fst (snd (datalayerCreate w c path data)))"
proof (induction w c path data rule: datalayerCreate.induct)
  case (1 w c path data)
  note Pw = "1.prems"
  show ?case
  proof (cases "state c \<noteq> STATE_LOGGED_IN")
    case True
    with Pw show ?thesis by (simp add: datalayerCreate.simps[of w c])
  next
    case li: False
    show ?thesis
    proof (cases "past (Date_now w) (token_expireTime c)")
      case True
      obtain out w1 c1 where l: "logIn (tick w) c = (out, w1, c1)"
        by (cases "logIn (tick w) c") auto
      from login[OF tk[OF Pw] l] have P1: "P w1" .
      show ?thesis
      proof (cases out)
        case (Resolved d)
        from "1.IH"(1)[OF li True l[symmetric] Resolved refl P1] li True l Resolved
        show ?thesis by (simp add: datalayerCreate.simps[of w c])
      next
        case (Rejected e)
        with li True l P1 show ?thesis by (simp add: datalayerCreate.simps[of w c])
      next
        case Pending
        with li True l P1 show ?thesis by (simp add: datalayerCreate.simps[of w c])
      qed
    next
      case np: False
      obtain r w1 where t: "CtrlxDatalayer_create (tick w) (hostname c) (tokenType c) (token c) path data (timeout c) = (r, w1)"
        by (cases "CtrlxDatalayer_create (tick w) (hostname c) (tokenType c) (token c) path data (timeout c)") auto
      from tr[OF tk[OF Pw] t[unfolded CtrlxDatalayer_create_def]] have P1: "P w1" .
      show ?thesis
      proof (cases r)
        case None
        with li np t P1 show ?thesis by (simp add: datalayerCreate.simps[of w c])
      next
        case (Some resp)
        obtain err data2 where resp: "resp = DlResponse err data2" by (cases resp) auto
        show ?thesis
        proof (cases "\<exists>e. err = Some e \<and> status e = Some 401 \<and> autoReconnect c")
          case False
          with li np t Some resp P1 show ?thesis
            by (auto simp: datalayerCreate.simps[of w c] split: option.splits)
        next
          case True
          then obtain e where e: "err = Some e" "status e = Some 401" "autoReconnect c" by auto
          obtain out w2 c2 where l: "logIn w1 c = (out, w2, c2)"
            by (cases "logIn w1 c") auto
          from login[OF P1 l] have P2: "P w2" .
          show ?thesis
          proof (cases out)
            case (Resolved d)
            have e': "status e = Some 401 \<and> autoReconnect c" using e by simp
            from "1.IH"(2)[OF li np t[symmetric] Some resp e(1) e' l[symmetric] Resolved refl P2]
            have "P (fst (snd (datalayerCreate w2 c2 path data)))" .
            with li np t Some resp e l Resolved show ?thesis
              by (auto simp: datalayerCreate.simps[of w c] split: prod.splits outcome.splits)
          next
            case (Rejected e2)
            with P2 li np t Some resp e l show ?thesis
              by (simp add: datalayerCreate.simps[of w c])
          next
            case Pending
            with li np t Some resp e l P2 show ?thesis
              by (simp add: datalayerCreate.simps[of w c])
          qed
        qed
      qed
    qed
  qed
qed

lemma datalayerCreate_trace_grows:
  assumes "datalayerCreate w c path data = (out, w1, c1)" and "trace w = pre @ m"
  shows "\<exists>more. trace w1 = pre @ more"
proof -
  have "\<exists>more. trace (fst (snd (datalayerCreate w c path data))) = pre @ more"
    by (rule datalayerCreate_world[where P = "\<lambda>w. \<exists>more. trace w = pre @ more"])
       (auto simp: tick_def assms(2) dest!: transport_world dest: logIn_trace_grows)
  with assms(1) show ?thesis by simp
qed

lemma datalayerCreate_delegates:
  assumes li: "state c = STATE_LOGGED_IN"
    and np: "\<not> past (Date_now w) (token_expireTime c)"
  shows "\<exists>more. trace (fst (snd (datalayerCreate w c path data))) =
           trace w @ DlCreate (hostname c) (tokenType c) (token c) path data (timeout c) # more"
proof -
  let ?x = "DlCreate (hostname c) (tokenType c) (token c) path data (timeout c)"
  obtain r w1 where t: "transport ?x (tick w) = (r, w1)"
    by (cases "transport ?x (tick w)") auto
  from transport_world[OF t] have p: "trace w1 = (trace w @ [?x]) @ []"
    by (simp add: tick_def)
  have g: "\<exists>more. trace w2 = (trace w @ [?x]) @ more" if "logIn w1 c = (out, w2, c2)" for out w2 c2
    using logIn_trace_grows[OF that p] .
  have "\<exists>more. trace (fst (snd (datalayerCreate w c path data))) = (trace w @ [?x]) @ more"
    using li np t p
    by (auto simp: datalayerCreate.simps[of w c] CtrlxDatalayer_create_def
        split: option.splits dl_response.splits prod.splits outcome.splits
        dest!: g dest: datalayerCreate_trace_grows)
  then show ?thesis by simp
qed

lemma datalayerCreate_renews:
  assumes li: "state c = STATE_LOGGED_IN"
    and pa: "past (Date_now w) (token_expireTime c)"
  shows "(case fst (logIn (tick w) c) of
      Resolved ld \<Rightarrow>
        datalayerCreate w c path data =
          datalayerCreate (fst (snd (logIn (tick w) c))) (snd (snd (logIn (tick w) c))) path data \<and>
        trace (fst (snd (logIn (tick w) c))) = trace w @
          [DeleteToken (hostname c) (tokenType c) (token c) (timeout c),
           Authenticate (hostname c) (username c) (password c) (timeout c)] \<and>
        (\<exists>rest. auth_script w =
           AuthData \<lparr>access_token = access_token ld, token_type = token_type ld\<rparr> # rest) \<and>
        token (snd (snd (logIn (tick w) c))) = access_token ld \<and>
        tokenType (snd (snd (logIn (tick w) c))) = token_type ld \<and>
        (\<not> past (Date_now (fst (snd (logIn (tick w) c))))
              (token_expireTime (snd (snd (logIn (tick w) c)))) \<longrightarrow>
         (\<exists>more. trace (fst (snd (datalayerCreate w c path data))) =
            trace (fst (snd (logIn (tick w) c))) @
            DlCreate (hostname c) (token_type ld) (access_token ld) path data (timeout c) # more))
    | Rejected e \<Rightarrow> datalayerCreate w c path data = (Rejected e, snd (logIn (tick w) c))
    | Pending \<Rightarrow> datalayerCreate w c path data = (Pending, snd (logIn (tick w) c)))"
proof -
  obtain out w1 c1 where l: "logIn (tick w) c = (out, w1, c1)"
    by (cases "logIn (tick w) c") auto
  show ?thesis
  proof (cases out)
    case (Resolved ld)
    with l have lr: "logIn (tick w) c = (Resolved ld, w1, c1)" by simp
    have eq: "datalayerCreate w c path data = datalayerCreate w1 c1 path data"
      using li pa lr by (simp add: datalayerCreate.simps[of w c])
    from logIn_requests[OF lr] li
    have tr: "trace w1 = trace w @
          [DeleteToken (hostname c) (tokenType c) (token c) (timeout c),
           Authenticate (hostname c) (username c) (password c) (timeout c)]"
      and same: "hostname c1 = hostname c" "timeout c1 = timeout c"
      by (simp_all add: tick_def)
    from logIn_token[OF lr]
    have tok: "token c1 = access_token ld" "tokenType c1 = token_type ld"
      "state c1 = STATE_LOGGED_IN"
      and au: "\<exists>rest. auth_script w =
           AuthData \<lparr>access_token = access_token ld, token_type = token_type ld\<rparr> # rest"
      by (simp_all add: tick_def)
    have "\<exists>more. trace (fst (snd (datalayerCreate w c path data))) =
            trace w1 @ DlCreate (hostname c) (token_type ld) (access_token ld) path data (timeout c) # more"
      if "\<not> past (Date_now w1) (token_expireTime c1)"
      using datalayerCreate_delegates[OF tok(3) that, of path data] eq same tok by simp
    with eq tr au tok lr show ?thesis by simp
  next
    case (Rejected e)
    with l li pa show ?thesis by (simp add: datalayerCreate.simps[of w c])
  next
    case Pending
    with l li pa show ?thesis by (simp add: datalayerCreate.simps[of w c])
  qed
qed


paragraph \<open>datalayerDelete\<close>

lemma datalayerDelete_world:
  assumes tk: "\<And>w. P w \<Longrightarrow> P (tick w)"
    and tr: "\<And>w x r w1. P w \<Longrightarrow> transport x w = (r, w1) \<Longrightarrow> P w1"
    and login: "\<And>w c out w1 c1. P w \<Longrightarrow> logIn w c = (out, w1, c1) \<Longrightarrow> P w1"
  shows "P w \<Longrightarrow> P (fst (snd (datalayerDelete w c path)))"
proof (induction w c path rule: datalayerDelete.induct)
  case (1 w c path)
  note Pw = "1.prems"
  show ?case
  proof (cases "state c \<noteq> STATE_LOGGED_IN")
    case True
    with Pw show ?thesis by (simp add: datalayerDelete.simps[of w c])
  next
    case li: False
    show ?thesis
    proof (cases "past (Date_now w) (token_expireTime c)")
      case True
      obtain out w1 c1 where l: "logIn (tick w) c = (out, w1, c1)"
        by (cases "logIn (tick w) c") auto
      from login[OF tk[OF Pw] l] have P1: "P w1" .
      show ?thesis
      proof (cases out)
        case (Resolved d)
        from "1.IH"(1)[OF li True l[symmetric] Resolved refl P1] li True l Resolved
        show ?thesis by (simp add: datalayerDelete.simps[of w c])
      next
        case (Rejected e)
        with li True l P1 show ?thesis by (simp add: datalayerDelete.simps[of w c])
      next
        case Pending
        with li True l P1 show ?thesis by (simp add: datalayerDelete.simps[of w c])
      qed
    next
      case np: False
      obtain r w1 where t: "CtrlxDatalayer_delete (tick w) (hostname c) (tokenType c) (token c) path (timeout c) = (r, w1)"
        by (cases "CtrlxDatalayer_delete (tick w) (hostname c) (tokenType c) (token c) path (timeout c)") auto
      from tr[OF tk[OF Pw] t[unfolded CtrlxDatalayer_delete_def]] have P1: "P w1" .
      show ?thesis
      proof (cases r)
        case None
        with li np t P1 show ?thesis by (simp add: datalayerDelete.simps[of w c])
      next
        case (Some resp)
        obtain err data2 where resp: "resp = DlResponse err data2" by (cases resp) auto
        show ?thesis
        proof (cases "\<exists>e. err = Some e \<and> status e = Some 401 \<and> autoReconnect c")
          case False
          with li np t Some resp P1 show ?thesis
            by (auto simp: datalayerDelete.simps[of w c] split: option.splits)
        next
          case True
          then obtain e where e: "err = Some e" "status e = Some 401" "autoReconnect c" by auto
          obtain out w2 c2 where l: "logIn w1 c = (out, w2, c2)"
            by (cases "logIn w1 c") auto
          from login[OF P1 l] have P2: "P w2" .
          show ?thesis
          proof (cases out)
            case (Resolved d)
            have e': "status e = Some 401 \<and> autoReconnect c" using e by simp
            from "1.IH"(2)[OF li np t[symmetric] Some resp e(1) e' l[symmetric] Resolved refl P2]
            have "P (fst (snd (datalayerDelete w2 c2 path)))" .
            with li np t Some resp e l Resolved show ?thesis
              by (auto simp: datalayerDelete.simps[of w c] split: prod.splits outcome.splits)
          next
            case (Rejected e2)
            with P2 li np t Some resp e l show ?thesis
              by (simp add: datalayerDelete.simps[of w c])
          next
            case Pending
            with li np t Some resp e l P2 show ?thesis
              by (simp add: datalayerDelete.simps[of w c])
          qed
        qed
      qed
    qed
  qed
qed

lemma datalayerDelete_trace_grows:
  assumes "datalayerDelete w c path = (out, w1, c1)" and "trace w = pre @ m"
  shows "\<exists>more. trace w1 = pre @ more"
proof -
  have "\<exists>more. trace (fst (snd (datalayerDelete w c path))) = pre @ more"
    by (rule datalayerDelete_world[where P = "\<lambda>w. \<exists>more. trace w = pre @ more"])
       (auto simp: tick_def assms(2) dest!: transport_world dest: logIn_trace_grows)
  with assms(1) show ?thesis by simp
qed

lemma datalayerDelete_delegates:
  assumes li: "state c = STATE_LOGGED_IN"
    and np: "\<not> past (Date_now w) (token_expireTime c)"
  shows "\<exists>more. trace (fst (snd (datalayerDelete w c path))) =
           trace w @ DlDelete (hostname c) (tokenType c) (token c) path (timeout c) # more"
proof -
  let ?x = "DlDelete (hostname c) (tokenType c) (token c) path (timeout c)"
  obtain r w1 where t: "transport ?x (tick w) = (r, w1)"
    by (cases "transport ?x (tick w)") auto
  from transport_world[OF t] have p: "trace w1 = (trace w @ [?x]) @ []"
    by (simp add: tick_def)
  have g: "\<exists>more. trace w2 = (trace w @ [?x]) @ more" if "logIn w1 c = (out, w2, c2)" for out w2 c2
    using logIn_trace_grows[OF that p] .
  have "\<exists>more. trace (fst (snd (datalayerDelete w c path))) = (trace w @ [?x]) @ more"
    using li np t p
    by (auto simp: datalayerDelete.simps[of w c] CtrlxDatalayer_delete_def
        split: option.splits dl_response.splits prod.splits outcome.splits
        dest!: g dest: datalayerDelete_trace_grows)
  then show ?thesis by simp
qed

lemma datalayerDelete_renews:
  assumes li: "state c = STATE_LOGGED_IN"
    and pa: "past (Date_now w) (token_expireTime c)"
  shows "(case fst (logIn (tick w) c) of
      Resolved ld \<Rightarrow>
        datalayerDelete w c path =
          datalayerDelete (fst (snd (logIn (tick w) c))) (snd (snd (logIn (tick w) c))) path \<and>
        trace (fst (snd (logIn (tick w) c))) = trace w @
          [DeleteToken (hostname c) (tokenType c) (token c) (timeout c),
           Authenticate (hostname c) (username c) (password c) (timeout c)] \<and>
        (\<exists>rest. auth_script w =
           AuthData \<lparr>access_token = access_token ld, token_type = token_type ld\<rparr> # rest) \<and>
        token (snd (snd (logIn (tick w) c))) = access_token ld \<and>
        tokenType (snd (snd (logIn (tick w) c))) = token_type ld \<and>
        (\<not> past (Date_now (fst (snd (logIn (tick w) c))))
              (token_expireTime (snd (snd (logIn (tick w) c)))) \<longrightarrow>
         (\<exists>more. trace (fst (snd (datalayerDelete w c path))) =
            trace (fst (snd (logIn (tick w) c))) @
            DlDelete (hostname c) (token_type ld) (access_token ld) path (timeout c) # more))
    | Rejected e \<Rightarrow> datalayerDelete w c path = (Rejected e, snd (logIn (tick w) c))
    | Pending \<Rightarrow> datalayerDelete w c path = (Pending, snd (logIn (tick w) c)))"
proof -
  obtain out w1 c1 where l: "logIn (tick w) c = (out, w1, c1)"
    by (cases "logIn (tick w) c") auto
  show ?thesis
  proof (cases out)
    case (Resolved ld)
    with l have lr: "logIn (tick w) c = (Resolved ld, w1, c1)" by simp
    have eq: "datalayerDelete w c path = datalayerDelete w1 c1 path"
      using li pa lr by (simp add: datalayerDelete.simps[of w c])
    from logIn_requests[OF lr] li
    have tr: "trace w1 = trace w @
          [DeleteToken (hostname c) (tokenType c) (token c) (timeout c),
           Authenticate (hostname c) (username c) (password c) (timeout c)]"
      and same: "hostname c1 = hostname c" "timeout c1 = timeout c"
      by (simp_all add: tick_def)
    from logIn_token[OF lr]
    have tok: "token c1 = access_token ld" "tokenType c1 = token_type ld"
      "state c1 = STATE_LOGGED_IN"
      and au: "\<exists>rest. auth_script w =
           AuthData \<lparr>access_token = access_token ld, token_type = token_type ld\<rparr> # rest"
      by (simp_all add: tick_def)
    have "\<exists>more. trace (fst (snd (datalayerDelete w c path))) =
            trace w1 @ DlDelete (hostname c) (token_type ld) (access_token ld) path (timeout c) # more"
      if "\<not> past (Date_now w1) (token_expireTime c1)"
      using datalayerDelete_delegates[OF tok(3) that, of path] eq same tok by simp
    with eq tr au tok lr show ?thesis by simp
  next
    case (Rejected e)
    with l li pa show ?thesis by (simp add: datalayerDelete.simps[of w c])
  next
    case Pending
    with l li pa show ?thesis by (simp add: datalayerDelete.simps[of w c])
  qed
qed


subsection \<open>When the reconnect leaves the state logged in without a token\<close>












subsection \<open>A login that is answered with a failure\<close>

text \<open>
  The callback on each kind of answer. Then the login itself, from any state, when the
  logout it may start with is answered: on a transport or device error, on an object
  without credential or scheme, and on an exception of the \<^verbatim>\<open>try\<close> block it rejects with
  that error, clears the token fields and sets \<^verbatim>\<open>STATE_LOGGED_OUT\<close>.
\<close>

lemma logIn_callback_failure:
  "(case r of
      AuthError err \<Rightarrow> logIn_callback w c r = (Rejected err, w, invalidate c)
    | AuthNull \<Rightarrow> logIn_callback w c r = (Pending, w, c)
    | AuthData d \<Rightarrow>
        if falsy (access_token d) \<or> falsy (token_type d)
        then logIn_callback w c r =
               (Rejected (Error ''Did not receive expected data as authentication response''),
                w, invalidate c)
        else (case parseJwt (decode_payload w) (the (access_token d)) of
                Inl error \<Rightarrow> logIn_callback w c r = (Rejected error, w, invalidate c)
              | Inr p \<Rightarrow>
                  if p = JwtNull
                  then logIn_callback w c r =
                         (Rejected (TypeError ''Cannot read properties of null (reading 'exp')''),
                          w, invalidate c)
                  else \<exists>ld. fst (logIn_callback w c r) = Resolved ld))"
  by (auto simp: logIn_callback_def Let_def
      split: auth_response.splits sum.splits jwt_payload.splits)

lemma logIn_failure_resets:
  assumes s: "auth_script w = r # rest"
    and lo: "state c = STATE_LOGGED_IN \<or> state c = STATE_AUTHENTICATING \<longrightarrow> revoke_script w \<noteq> []"
    and cause: "(case r of
        AuthError err \<Rightarrow> e = err
      | AuthNull \<Rightarrow> False
      | AuthData d \<Rightarrow>
          if falsy (access_token d) \<or> falsy (token_type d)
          then e = Error ''Did not receive expected data as authentication response''
          else (case parseJwt (decode_payload w) (the (access_token d)) of
                  Inl error \<Rightarrow> e = error
                | Inr p \<Rightarrow> p = JwtNull \<and>
                    e = TypeError ''Cannot read properties of null (reading 'exp')''))"
  shows "fst (logIn w c) = Rejected e \<and>
         token (snd (snd (logIn w c))) = None \<and>
         tokenType (snd (snd (logIn w c))) = None \<and>
         token_decoded (snd (snd (logIn w c))) = None \<and>
         state (snd (snd (logIn w c))) = STATE_LOGGED_OUT"
proof -
  have cb: "logIn_callback w0 c0 r = (Rejected e, w0, invalidate c0)"
    if "decode_payload w0 = decode_payload w" for w0 c0
    using cause logIn_callback_failure[where r = r and w = w0 and c = c0] that
    by (auto split: auth_response.splits if_splits sum.splits)
  show ?thesis
  proof (cases "state c = STATE_LOGGED_IN \<or> state c = STATE_AUTHENTICATING")
    case True
    with lo obtain a as where rs: "revoke_script w = a # as" by (cases "revoke_script w") auto
    let ?w1 = "(send (DeleteToken (hostname c) (tokenType c) (token c) (timeout c)) w)
                 \<lparr>revoke_script := as\<rparr>"
    let ?w2 = "(send (Authenticate (hostname c) (username c) (password c) (timeout c)) ?w1)
                 \<lparr>auth_script := rest\<rparr>"
    have d: "decode_payload ?w2 = decode_payload w" by (simp add: send_def)
    have "logIn w c = logIn_callback ?w2 ((invalidate c)\<lparr>state := STATE_AUTHENTICATING\<rparr>) r"
      unfolding logIn_again[OF True] using rs s
      by (cases a) (simp_all add: logOut_def deleteToken_def authenticate_def send_def)
    with cb[OF d] show ?thesis by (simp add: invalidate_def)
  next
    case False
    then have f: "state c \<noteq> STATE_LOGGED_IN" "state c \<noteq> STATE_AUTHENTICATING"
      by simp_all
    let ?w2 = "(send (Authenticate (hostname c) (username c) (password c) (timeout c)) w)
                 \<lparr>auth_script := rest\<rparr>"
    have d: "decode_payload ?w2 = decode_payload w" by (simp add: send_def)
    have "logIn w c = logIn_callback ?w2 (c\<lparr>state := STATE_AUTHENTICATING\<rparr>) r"
      unfolding logIn_fresh[OF f] using s by (simp add: authenticate_def send_def)
    with cb[OF d] show ?thesis by (simp add: invalidate_def)
  qed
qed

subsection \<open>C1: the token fields and the state\<close>




subsection \<open>C2: which failures are retried\<close>




subsection \<open>C3: the arguments of the retry\<close>

text \<open>
  Claim C3 holds for write, create and delete, whose retry repeats the call's own arguments
  (the lemmas \<open>datalayerWrite_failure\<close>, \<open>datalayerCreate_failure\<close> and
  \<open>datalayerDelete_failure\<close>). It fails for read: evaluated on a read that carries the
  payload \<^verbatim>\<open>{arg1: 17, arg2: 5}\<close> and is answered with status 401 and then accepted,
  \<^verbatim>\<open>datalayerRead\<close> sends the second request with \<^verbatim>\<open>null\<close>, the value its callback
  received with the error, in place of the payload.
\<close>

theorem read_retry_payload:
  "trace (fst (snd (datalayerRead (example_world [example_grant] [None]
        [example_unauthorized, DlResponse None (JS_num 22)])
        example_auto ''test/add'' (JS_obj [(''arg1'', JS_num 17), (''arg2'', JS_num 5)]) ''data''))) =
     [DlRead ''192.168.1.1'' (Some ''Bearer'') (Some ''h.e30-.s'') ''test/add''
        (JS_obj [(''arg1'', JS_num 17), (''arg2'', JS_num 5)]) ''data'' (- 1),
      DeleteToken ''192.168.1.1'' (Some ''Bearer'') (Some ''h.e30-.s'') (- 1),
      Authenticate ''192.168.1.1'' ''boschrexroth'' ''secret'' (- 1),
      DlRead ''192.168.1.1'' (Some ''Bearer'') (Some ''h.e30-.s'') ''test/add'' JS_null ''data'' (- 1)]"
  by (simp add: example_auto_def example_session_def example_unauthorized_def
      datalayerRead.simps logIn.simps run_defs)

subsection \<open>C4: logOut\<close>

text \<open>
  Claim C4. When the device answers the token deletion, with success or with an error,
  \<^verbatim>\<open>logOut\<close> called in any state clears the three token fields and sets the state to
  \<^verbatim>\<open>STATE_LOGGED_OUT\<close>; the promise resolves on success and rejects with the device's
  error otherwise.
\<close>

theorem logOut_resets:
  "revoke_script w = r # rest \<Longrightarrow>
     fst (logOut w c) = (case r of None \<Rightarrow> Resolved () | Some e \<Rightarrow> Rejected e) \<and>
     token (snd (snd (logOut w c))) = None \<and>
     tokenType (snd (snd (logOut w c))) = None \<and>
     token_decoded (snd (snd (logOut w c))) = None \<and>
     state (snd (snd (logOut w c))) = STATE_LOGGED_OUT"
  by (simp add: logOut_def deleteToken_def send_def invalidate_def split: option.splits)

theorem logOut_resets_witness:
  "fst (logOut (example_world [] [Some (SystemError ''ECONNRESET'')] []) example_session)
     = Rejected (SystemError ''ECONNRESET'') \<and>
   token (snd (snd (logOut (example_world [] [Some (SystemError ''ECONNRESET'')] []) example_session))) = None \<and>
   state (snd (snd (logOut (example_world [] [Some (SystemError ''ECONNRESET'')] []) example_session)))
     = STATE_LOGGED_OUT \<and>
   state example_session = STATE_LOGGED_IN"
  using logOut_resets[of "example_world [] [Some (SystemError ''ECONNRESET'')] []"
      "Some (SystemError ''ECONNRESET'')" "[]" example_session]
  by (simp add: example_world_def example_session_def)

subsection \<open>C5: the expiry time\<close>

text \<open>
  Claim C5, as the code has it. After a successful \<^verbatim>\<open>logIn\<close> whose decoded token has
  the claims \<^verbatim>\<open>iat\<close> and \<^verbatim>\<open>exp\<close>, the stored expiry time is the reading of the local
  clock taken while the answer is handled, plus \<open>(exp - iat - 30) * 1000\<close> milliseconds;
  a token with \<open>exp = iat + 3600\<close> expires 3570 seconds after that reading.
\<close>

theorem expiry_from_local_clock:
  "logIn w c = (Resolved d, w1, c1) \<Longrightarrow>
   token_decoded c1 = Some (JwtClaims (Some e) (Some i)) \<Longrightarrow>
     token_expireTime c1 = Some (clock w (ticks w) + (e - i - 30) * 1000) \<and>
     (e = i + 3600 \<longrightarrow> token_expireTime c1 = Some (clock w (ticks w) + 3570 * 1000))"
proof -
  assume a: "logIn w c = (Resolved d, w1, c1)"
    and p: "token_decoded c1 = Some (JwtClaims (Some e) (Some i))"
  from logIn_settled[OF a] obtain w0 c0 r where
    k: "clock w0 = clock w" "ticks w0 = ticks w"
    and cb: "logIn_callback w0 c0 r = (Resolved d, w1, c1)" by auto
  from logIn_callback_resolved[OF cb] obtain q where
    q: "token_decoded c1 = Some q"
    and t: "token_expireTime c1 = expireTime (clock w0 (ticks w0)) (tokenExpiresInSeconds q)"
    by auto
  from q p have "q = JwtClaims (Some e) (Some i)" by simp
  with t k have "token_expireTime c1 = Some (clock w (ticks w) + (e - i - 30) * 1000)"
    by (simp add: expireTime_def tokenExpiresInSeconds_def)
  then show ?thesis by auto
qed

theorem expiry_from_local_clock_witness:
  "token_decoded (snd example_reconnecting) = Some (JwtClaims (Some 4600) (Some 1000)) \<and>
   token_expireTime (snd example_reconnecting) = Some (5000001 + (4600 - 1000 - 30) * 1000)"
proof -
  let ?c0 = "set_autoReconnect
      (fst (constructor example_device ''192.168.1.1'' ''boschrexroth'' ''secret'')) True"
  let ?w0 = "snd (constructor example_device ''192.168.1.1'' ''boschrexroth'' ''secret'')"
  have "\<exists>d. fst (logIn ?w0 ?c0) = Resolved d"
    by (simp add: example_device_def logIn.simps run_defs)
  then obtain d where "fst (logIn ?w0 ?c0) = Resolved d" ..
  then have l: "logIn ?w0 ?c0 = (Resolved d, fst example_reconnecting, snd example_reconnecting)"
    by (simp add: example_reconnecting_def prod_eq_iff)
  have p: "token_decoded (snd example_reconnecting) = Some (JwtClaims (Some 4600) (Some 1000))"
    by (simp add: example_reconnecting_eq)
  have k: "clock ?w0 (ticks ?w0) = 5000001"
    by (simp add: example_device_def run_defs)
  from expiry_from_local_clock[OF l p] p k show ?thesis by simp
qed

text \<open>
  C5 as stated fails. The expiry time is not \<open>iat + (exp - iat) - 30\<close> seconds: a token
  issued at 1000 s and
  expiring at 4600 s, received when the local clock reads 5000001 ms, is stored with the
  expiry time 8570001 ms, neither 4570 s nor 4570000 ms.
\<close>

theorem expiry_not_from_issued_at_counterexample:
  "state (snd example_reconnecting) = STATE_LOGGED_IN \<and>
   token_decoded (snd example_reconnecting) = Some (JwtClaims (Some 4600) (Some 1000)) \<and>
   token_expireTime (snd example_reconnecting) \<noteq> Some ((1000 + (4600 - 1000) - 30) * 1000) \<and>
   token_expireTime (snd example_reconnecting) \<noteq> Some (1000 + (4600 - 1000) - 30)"
  by (simp add: example_reconnecting_eq)

subsection \<open>C6: the expiry check\<close>

text \<open>
  Claim C6. For each of read, write, create and delete invoked in the state
  \<^verbatim>\<open>STATE_LOGGED_IN\<close>: if the clock is not past the expiry time, the first request the call
  sends is the transport's, with the cached token type and token and the configured timeout.
  If the clock is past it, the call logs in first (the logout request with the stale
  credential, then the authentication request); when the login resolves, the call is the
  same operation on the instance the login left, which holds the credential of the answer
  just received, and unless that token is past its expiry time already the next request is
  the transport's with the new credential; when the login rejects or stays pending, so does
  the call, and no transport request is sent.
\<close>

theorem expiry_check:
  assumes li: "state c = STATE_LOGGED_IN"
  shows "(if past (Date_now w) (token_expireTime c) then
      ((case fst (logIn (tick w) c) of
      Resolved ld \<Rightarrow>
        datalayerRead w c path data type =
          datalayerRead (fst (snd (logIn (tick w) c))) (snd (snd (logIn (tick w) c))) path data type \<and>
        trace (fst (snd (logIn (tick w) c))) = trace w @
          [DeleteToken (hostname c) (tokenType c) (token c) (timeout c),
           Authenticate (hostname c) (username c) (password c) (timeout c)] \<and>
        (\<exists>rest. auth_script w =
           AuthData \<lparr>access_token = access_token ld, token_type = token_type ld\<rparr> # rest) \<and>
        token (snd (snd (logIn (tick w) c))) = access_token ld \<and>
        tokenType (snd (snd (logIn (tick w) c))) = token_type ld \<and>
        (\<not> past (Date_now (fst (snd (logIn (tick w) c))))
              (token_expireTime (snd (snd (logIn (tick w) c)))) \<longrightarrow>
         (\<exists>more. trace (fst (snd (datalayerRead w c path data type))) =
            trace (fst (snd (logIn (tick w) c))) @
            DlRead (hostname c) (token_type ld) (access_token ld) path data type (timeout c) # more))
    | Rejected e \<Rightarrow> datalayerRead w c path data type = (Rejected e, snd (logIn (tick w) c))
    | Pending \<Rightarrow> datalayerRead w c path data type = (Pending, snd (logIn (tick w) c))))
    else
      (\<exists>more. trace (fst (snd (datalayerRead w c path data type))) =
           trace w @ DlRead (hostname c) (tokenType c) (token c) path data type (timeout c) # more)) \<and>
   (if past (Date_now w) (token_expireTime c) then
      ((case fst (logIn (tick w) c) of
      Resolved ld \<Rightarrow>
        datalayerWrite w c path data =
          datalayerWrite (fst (snd (logIn (tick w) c))) (snd (snd (logIn (tick w) c))) path data \<and>
        trace (fst (snd (logIn (tick w) c))) = trace w @
          [DeleteToken (hostname c) (tokenType c) (token c) (timeout c),
           Authenticate (hostname c) (username c) (password c) (timeout c)] \<and>
        (\<exists>rest. auth_script w =
           AuthData \<lparr>access_token = access_token ld, token_type = token_type ld\<rparr> # rest) \<and>
        token (snd (snd (logIn (tick w) c))) = access_token ld \<and>
        tokenType (snd (snd (logIn (tick w) c))) = token_type ld \<and>
        (\<not> past (Date_now (fst (snd (logIn (tick w) c))))
              (token_expireTime (snd (snd (logIn (tick w) c)))) \<longrightarrow>
         (\<exists>more. trace (fst (snd (datalayerWrite w c path data))) =
            trace (fst (snd (logIn (tick w) c))) @
            DlWrite (hostname c) (token_type ld) (access_token ld) path data (timeout c) # more))
    | Rejected e \<Rightarrow> datalayerWrite w c path data = (Rejected e, snd (logIn (tick w) c))
    | Pending \<Rightarrow> datalayerWrite w c path data = (Pending, snd (logIn (tick w) c))))
    else
      (\<exists>more. trace (fst (snd (datalayerWrite w c path data))) =
           trace w @ DlWrite (hostname c) (tokenType c) (token c) path data (timeout c) # more)) \<and>
   (if past (Date_now w) (token_expireTime c) then
      ((case fst (logIn (tick w) c) of
      Resolved ld \<Rightarrow>
        datalayerCreate w c path data =
          datalayerCreate (fst (snd (logIn (tick w) c))) (snd (snd (logIn (tick w) c))) path data \<and>
        trace (fst (snd (logIn (tick w) c))) = trace w @
          [DeleteToken (hostname c) (tokenType c) (token c) (timeout c),
           Authenticate (hostname c) (username c) (password c) (timeout c)] \<and>
        (\<exists>rest. auth_script w =
           AuthData \<lparr>access_token = access_token ld, token_type = token_type ld\<rparr> # rest) \<and>
        token (snd (snd (logIn (tick w) c))) = access_token ld \<and>
        tokenType (snd (snd (logIn (tick w) c))) = token_type ld \<and>
        (\<not> past (Date_now (fst (snd (logIn (tick w) c))))
              (token_expireTime (snd (snd (logIn (tick w) c)))) \<longrightarrow>
         (\<exists>more. trace (fst (snd (datalayerCreate w c path data))) =
            trace (fst (snd (logIn (tick w) c))) @
            DlCreate (hostname c) (token_type ld) (access_token ld) path data (timeout c) # more))
    | Rejected e \<Rightarrow> datalayerCreate w c path data = (Rejected e, snd (logIn (tick w) c))
    | Pending \<Rightarrow> datalayerCreate w c path data = (Pending, snd (logIn (tick w) c))))
    else
      (\<exists>more. trace (fst (snd (datalayerCreate w c path data))) =
           trace w @ DlCreate (hostname c) (tokenType c) (token c) path data (timeout c) # more)) \<and>
   (if past (Date_now w) (token_expireTime c) then
      ((case fst (logIn (tick w) c) of
      Resolved ld \<Rightarrow>
        datalayerDelete w c path =
          datalayerDelete (fst (snd (logIn (tick w) c))) (snd (snd (logIn (tick w) c))) path \<and>
        trace (fst (snd (logIn (tick w) c))) = trace w @
          [DeleteToken (hostname c) (tokenType c) (token c) (timeout c),
           Authenticate (hostname c) (username c) (password c) (timeout c)] \<and>
        (\<exists>rest. auth_script w =
           AuthData \<lparr>access_token = access_token ld, token_type = token_type ld\<rparr> # rest) \<and>
        token (snd (snd (logIn (tick w) c))) = access_token ld \<and>
        tokenType (snd (snd (logIn (tick w) c))) = token_type ld \<and>
        (\<not> past (Date_now (fst (snd (logIn (tick w) c))))
              (token_expireTime (snd (snd (logIn (tick w) c)))) \<longrightarrow>
         (\<exists>more. trace (fst (snd (datalayerDelete w c path))) =
            trace (fst (snd (logIn (tick w) c))) @
            DlDelete (hostname c) (token_type ld) (access_token ld) path (timeout c) # more))
    | Rejected e \<Rightarrow> datalayerDelete w c path = (Rejected e, snd (logIn (tick w) c))
    | Pending \<Rightarrow> datalayerDelete w c path = (Pending, snd (logIn (tick w) c))))
    else
      (\<exists>more. trace (fst (snd (datalayerDelete w c path))) =
           trace w @ DlDelete (hostname c) (tokenType c) (token c) path (timeout c) # more))"
  using datalayerRead_renews[OF li] datalayerRead_delegates[OF li] datalayerWrite_renews[OF li] datalayerWrite_delegates[OF li] datalayerCreate_renews[OF li] datalayerCreate_delegates[OF li] datalayerDelete_renews[OF li] datalayerDelete_delegates[OF li]
  by simp

theorem expiry_check_witness:
  "state example_stale = STATE_LOGGED_IN \<and>
   past (Date_now (example_world [example_grant2] [None] [DlResponse None (JS_num 5)]))
     (token_expireTime example_stale) \<and>
   token example_stale = Some ''h.e30-.s'' \<and>
   take 3 (trace (fst (snd (datalayerRead
       (example_world [example_grant2] [None] [DlResponse None (JS_num 5)])
       example_stale ''a/b/c'' JS_undefined ''data'')))) =
     [DeleteToken ''192.168.1.1'' (Some ''Bearer'') (Some ''h.e30-.s'') (- 1),
      Authenticate ''192.168.1.1'' ''boschrexroth'' ''secret'' (- 1),
      DlRead ''192.168.1.1'' (Some ''Bearer'') (Some ''n.e30-.t'') ''a/b/c'' JS_undefined
        ''data'' (- 1)]"
proof -
  let ?w = "example_world [example_grant2] [None] [DlResponse None (JS_num 5)]"
  have li: "state example_stale = STATE_LOGGED_IN"
    by (simp add: example_stale_def example_session_def)
  have pa: "past (Date_now ?w) (token_expireTime example_stale)"
    by (simp add: example_stale_def example_session_def run_defs)
  have tok: "token example_stale = Some ''h.e30-.s''"
    by (simp add: example_stale_def example_session_def)
  have f: "fst (logIn (tick ?w) example_stale) =
      Resolved \<lparr>access_token = Some ''n.e30-.t'', token_type = Some ''Bearer'',
        data_token_decoded = JwtClaims (Some 4600) (Some 1000),
        data_token_expireTime = Some 8570001\<rparr>"
    by (simp add: example_stale_def example_session_def example_grant2_def logIn.simps
        run_defs auth_data.extend_def)
  have t: "trace (fst (snd (logIn (tick ?w) example_stale))) =
      [DeleteToken ''192.168.1.1'' (Some ''Bearer'') (Some ''h.e30-.s'') (- 1),
       Authenticate ''192.168.1.1'' ''boschrexroth'' ''secret'' (- 1)]"
    by (simp add: example_stale_def example_session_def example_grant2_def logIn.simps run_defs)
  have np: "\<not> past (Date_now (fst (snd (logIn (tick ?w) example_stale))))
                (token_expireTime (snd (snd (logIn (tick ?w) example_stale))))"
    by (simp add: example_stale_def example_session_def example_grant2_def logIn.simps run_defs)
  have h: "hostname example_stale = ''192.168.1.1''" "timeout example_stale = - 1"
    by (simp_all add: example_stale_def example_session_def)
  from expiry_check[OF li, of ?w "''a/b/c''" JS_undefined "''data''"] pa f np t h
  obtain more where "trace (fst (snd (datalayerRead ?w example_stale ''a/b/c'' JS_undefined ''data''))) =
     [DeleteToken ''192.168.1.1'' (Some ''Bearer'') (Some ''h.e30-.s'') (- 1),
      Authenticate ''192.168.1.1'' ''boschrexroth'' ''secret'' (- 1)] @
     DlRead ''192.168.1.1'' (Some ''Bearer'') (Some ''n.e30-.t'') ''a/b/c'' JS_undefined
        ''data'' (- 1) # more"
    by auto
  with li pa tok show ?thesis by simp
qed

subsection \<open>C7: a login that fails\<close>

text \<open>
  Claim C7 holds for a transport or device error, for an answer object without credential
  or scheme and for an exception while the token is decoded (the lemma
  \<open>logIn_failure_resets\<close>). It fails for an answer with status 201 whose body is
  \<^verbatim>\<open>null\<close>, which has neither field: evaluated on it, from a new instance and from a
  logged-in session, \<^verbatim>\<open>logIn\<close> does not reject, and the state stays
  \<^verbatim>\<open>STATE_AUTHENTICATING\<close> instead of \<^verbatim>\<open>STATE_LOGGED_OUT\<close>, although the answer has
  been used up.
\<close>

theorem logIn_null_body:
  "fst (logIn (example_world [AuthNull] [] []) example_new) = Pending \<and>
   state (snd (snd (logIn (example_world [AuthNull] [] []) example_new)))
     = STATE_AUTHENTICATING \<and>
   auth_script (fst (snd (logIn (example_world [AuthNull] [] []) example_new))) = [] \<and>
   fst (logIn (example_world [AuthNull] [None] []) example_session) = Pending \<and>
   state (snd (snd (logIn (example_world [AuthNull] [None] []) example_session)))
     = STATE_AUTHENTICATING"
  by (simp add: example_new_def example_session_def logIn.simps run_defs)

subsection \<open>C8: requests without a session\<close>

text \<open>
  Claim C8. Each data operation (read, write, create, delete, metadata, browse) invoked while
  the state is not \<^verbatim>\<open>STATE_LOGGED_IN\<close> rejects at once with the "Not authenticated" error;
  the world is the same afterwards (no request was sent, no login attempted, the clock was
  not read) and so is the instance.
\<close>

theorem not_logged_in_rejected:
  "state c \<noteq> STATE_LOGGED_IN \<Longrightarrow>
   datalayerRead w c path data type =
     (Rejected (Error ''Failed to read from Data Layer. Not authenticated. Please login first.''), w, c) \<and>
   datalayerWrite w c path data =
     (Rejected (Error ''Failed to read from Data Layer. Not authenticated. Please login first.''), w, c) \<and>
   datalayerCreate w c path data =
     (Rejected (Error ''Failed to create node on Data Layer. Not authenticated. Please login first.''), w, c) \<and>
   datalayerDelete w c path =
     (Rejected (Error ''Failed to delete node on Data Layer. Not authenticated. Please login first.''), w, c) \<and>
   datalayerReadMetadata w c path =
     (Rejected (Error ''Failed to read from Data Layer. Not authenticated. Please login first.''), w, c) \<and>
   datalayerBrowse w c path =
     (Rejected (Error ''Failed to read from Data Layer. Not authenticated. Please login first.''), w, c)"
  by (simp add: datalayerRead.simps[of w c] datalayerWrite.simps[of w c]
      datalayerCreate.simps[of w c] datalayerDelete.simps[of w c]
      datalayerReadMetadata_def datalayerBrowse_def)

theorem not_logged_in_rejected_witness:
  "state example_new \<noteq> STATE_LOGGED_IN \<and>
   datalayerRead (example_world [] [] []) example_new ''a/b/c'' JS_undefined ''data'' =
     (Rejected (Error ''Failed to read from Data Layer. Not authenticated. Please login first.''),
      example_world [] [] [], example_new) \<and>
   trace (fst (snd (datalayerDelete (example_world [] [] []) example_new ''a/b/c''))) = []"
proof -
  have h: "state example_new \<noteq> STATE_LOGGED_IN"
    by (simp add: example_new_def constructor_def)
  from not_logged_in_rejected[OF h, of "example_world [] [] []" "''a/b/c''" JS_undefined "''data''"] h
  show ?thesis by (simp add: example_world_def)
qed

subsection \<open>C9: metadata and browse\<close>

text \<open>
  Claim C9. For every path, \<^verbatim>\<open>datalayerReadMetadata(path)\<close> is
  \<^verbatim>\<open>datalayerRead(path, undefined, 'metadata')\<close> and \<^verbatim>\<open>datalayerBrowse(path)\<close> is
  \<^verbatim>\<open>datalayerRead(path, undefined, 'browse')\<close>: same outcome, same requests, same
  instance afterwards.
\<close>

theorem metadata_browse_are_reads:
  "datalayerReadMetadata w c path = datalayerRead w c path JS_undefined ''metadata'' \<and>
   datalayerBrowse w c path = datalayerRead w c path JS_undefined ''browse''"
  by (simp add: datalayerReadMetadata_def datalayerBrowse_def)

subsection \<open>C10: the configuration setters\<close>

text \<open>
  Claim C10. Setting \<^verbatim>\<open>timeout\<close> or \<^verbatim>\<open>autoReconnect\<close> changes that one field only:
  the state, the token, the token type, the decoded claims and the expiry time stay as they
  were, and the getter returns the value that was set, also \<open>-1\<close> for the timeout.
\<close>

theorem setters_frame:
  "get_timeout (set_timeout c t) = t \<and>
   get_timeout (set_timeout c (- 1)) = - 1 \<and>
   set_timeout c t = c\<lparr>timeout := t\<rparr> \<and>
   state (set_timeout c t) = state c \<and>
   token (set_timeout c t) = token c \<and>
   tokenType (set_timeout c t) = tokenType c \<and>
   token_decoded (set_timeout c t) = token_decoded c \<and>
   token_expireTime (set_timeout c t) = token_expireTime c \<and>
   get_autoReconnect (set_timeout c t) = get_autoReconnect c \<and>
   get_autoReconnect (set_autoReconnect c b) = b \<and>
   set_autoReconnect c b = c\<lparr>autoReconnect := b\<rparr> \<and>
   state (set_autoReconnect c b) = state c \<and>
   token (set_autoReconnect c b) = token c \<and>
   tokenType (set_autoReconnect c b) = tokenType c \<and>
   token_decoded (set_autoReconnect c b) = token_decoded c \<and>
   token_expireTime (set_autoReconnect c b) = token_expireTime c \<and>
   get_timeout (set_autoReconnect c b) = get_timeout c"
  by (simp add: get_timeout_def set_timeout_def get_autoReconnect_def set_autoReconnect_def)

end
